theory Spec2Isabelle
  imports Complex_Main "HOL-Library.Log_Nat"
begin

section \<open>Data model\<close>

text \<open>
  The loan lifecycle and overdue engine of the gold-lending back office:
  \<^verbatim>\<open>src/utils/helpers.ts\<close> (EMI), \<^verbatim>\<open>src/services/overdueService.ts\<close> (overdue and
  penalty engine), \<^verbatim>\<open>src/routes/payments.ts\<close> (payment ledger), the loans router
  (creation, approval, rejection, disbursement) and the scheduled overdue job.

  Conventions of the embedding.
  \<^item> A JavaScript \<^verbatim>\<open>Date\<close> is its time value: milliseconds since the epoch, an
    \<open>int\<close>. The server's local time zone is taken to be UTC, so \<^verbatim>\<open>getMonth\<close>,
    \<^verbatim>\<open>setMonth\<close>, \<^verbatim>\<open>getDate\<close> and \<^verbatim>\<open>setDate\<close> are the ECMAScript
    operations on that value with a zero offset.
  \<^item> Every clock read (\<^verbatim>\<open>new Date()\<close>, \<^verbatim>\<open>Date.now()\<close>) of one operation yields the
    same instant, the parameter \<open>now\<close>.
  \<^item> Currency amounts and rates held in the database (Prisma decimals) are exact
    rationals, and the arithmetic on them (overdue engine, payment ledger, loan-to-value
    ratio) is exact. The EMI calculator \<^verbatim>\<open>calculateEMI\<close> is evaluated in IEEE 754 double
    precision, every operation rounded to the nearest double, as JavaScript does it.
  \<^item> The Prisma schema is not part of the sources; the \<open>Loan\<close> and \<open>Payment\<close> records
    hold the columns that the lifecycle and the overdue engine read or write. Columns that
    only label a row (loan number, customer and user ids, purpose, remarks, transaction id,
    notes, the optional breakdown of a payment) are left out.
  \<^item> Operations on the database run one after the other; no other writer interleaves.
\<close>

type_synonym date = int

datatype LoanStatus = PENDING | APPROVED | ACTIVE | COMPLETED | REJECTED | DEFAULTED

datatype PenaltyType = PERCENTAGE | FIXED

datatype PaymentType =
  LOAN_DISBURSEMENT | EMI_PAYMENT | PARTIAL_PAYMENT | INTEREST_PAYMENT
  | PENALTY_PAYMENT | LOAN_CLOSURE

datatype PaymentStatus = PAY_PENDING | PAY_COMPLETED | PAY_FAILED | PAY_CANCELLED

record Loan =
  loan_id :: string
  status :: LoanStatus
  principalAmount :: rat
  interestRate :: rat
  tenure :: nat
  emiAmount :: "rat option"
  totalGoldWeight :: rat
  totalGoldValue :: rat
  ltvRatio :: rat
  outstandingBalance :: rat
  totalAmountPaid :: rat
  approvalDate :: "date option"
  disbursementDate :: "date option"
  maturityDate :: "date option"
  lastPaymentDate :: "date option"
  isOverdue :: bool
  daysOverdue :: int
  overdueAmount :: rat
  penaltyAmount :: rat
  nextDueDate :: "date option"
  overdueSince :: "date option"
  penaltyRate :: rat
  penaltyType :: PenaltyType

record Payment =
  pay_loanId :: string
  pay_amount :: rat
  paymentType :: PaymentType
  paymentMethod :: string
  receiptNumber :: "int option"
  pay_status :: PaymentStatus

text \<open>The result of \<^verbatim>\<open>calculateOverdueStatus\<close> (interface \<^verbatim>\<open>OverdueCalculationResult\<close>).\<close>

record OverdueCalculationResult =
  res_isOverdue :: bool
  res_daysOverdue :: int
  res_overdueAmount :: rat
  res_penaltyAmount :: rat
  res_nextDueDate :: "date option"

section \<open>JavaScript dates\<close>

text \<open>
  The ECMAScript abstract operations \<^verbatim>\<open>Day\<close>, \<^verbatim>\<open>TimeWithinDay\<close>, \<^verbatim>\<open>MakeDay\<close> and
  \<^verbatim>\<open>MakeDate\<close>, with the proleptic Gregorian calendar computed in closed form.
  Months are numbered from 0 (January) to 11, days of the month from 1.
\<close>

definition msPerDay :: int where
  "msPerDay = 86400000"

definition Day :: "date \<Rightarrow> int" where
  "Day t = t div msPerDay"

definition TimeWithinDay :: "date \<Rightarrow> int" where
  "TimeWithinDay t = t mod msPerDay"

text \<open>Day number (days since 1970-01-01) of the civil date year \<open>y\<close>, month \<open>m\<close> (0 to 11),
  day \<open>d\<close>. The year is counted from March so that the leap day comes last.\<close>

definition days_from_civil :: "int \<Rightarrow> int \<Rightarrow> int \<Rightarrow> int" where
  "days_from_civil y m d =
     (let y' = (if m \<le> 1 then y - 1 else y);
          era = y' div 400;
          yoe = y' - era * 400;
          mp = (if m \<le> 1 then m + 10 else m - 2);
          doy = (153 * mp + 2) div 5 + d - 1;
          doe = yoe * 365 + yoe div 4 - yoe div 100 + doy
      in era * 146097 + doe - 719468)"

text \<open>The civil date (year, month 0 to 11, day of month) of a day number.\<close>

definition civil_from_days :: "int \<Rightarrow> int \<times> int \<times> int" where
  "civil_from_days z =
     (let z' = z + 719468;
          era = z' div 146097;
          doe = z' - era * 146097;
          yoe = (doe - doe div 1460 + doe div 36524 - doe div 146096) div 365;
          doy = doe - (365 * yoe + yoe div 4 - yoe div 100);
          mp = (5 * doy + 2) div 153;
          d = doy - (153 * mp + 2) div 5 + 1;
          m = (if mp < 10 then mp + 2 else mp - 10);
          y = yoe + era * 400
      in (if m \<le> 1 then y + 1 else y, m, d))"

definition YearFromTime :: "date \<Rightarrow> int" where
  "YearFromTime t = fst (civil_from_days (Day t))"

definition MonthFromTime :: "date \<Rightarrow> int" where
  "MonthFromTime t = fst (snd (civil_from_days (Day t)))"

definition DateFromTime :: "date \<Rightarrow> int" where
  "DateFromTime t = snd (snd (civil_from_days (Day t)))"

text \<open>\<^verbatim>\<open>MakeDay(year, month, date)\<close>: months outside 0 to 11 carry into the year, and the
  day of the month is added as an offset from the first of that month, which is how a day
  beyond the month's end rolls into the following month.\<close>

definition MakeDay :: "int \<Rightarrow> int \<Rightarrow> int \<Rightarrow> int" where
  "MakeDay y m d = days_from_civil (y + m div 12) (m mod 12) 1 + d - 1"

definition MakeDate :: "int \<Rightarrow> int \<Rightarrow> date" where
  "MakeDate day time = day * msPerDay + time"

definition getMonth :: "date \<Rightarrow> int" where
  "getMonth t = MonthFromTime t"

definition getDate :: "date \<Rightarrow> int" where
  "getDate t = DateFromTime t"

definition setMonth :: "date \<Rightarrow> int \<Rightarrow> date" where
  "setMonth t m = MakeDate (MakeDay (YearFromTime t) m (DateFromTime t)) (TimeWithinDay t)"

definition setDate :: "date \<Rightarrow> int \<Rightarrow> date" where
  "setDate t d = MakeDate (MakeDay (YearFromTime t) (MonthFromTime t) d) (TimeWithinDay t)"

text \<open>The time value of midnight UTC on a civil date with the month written 1 to 12, as
  \<^verbatim>\<open>new Date('2024-01-17')\<close> gives.\<close>

definition ymd :: "int \<Rightarrow> int \<Rightarrow> int \<Rightarrow> date" where
  "ymd y m d = MakeDate (days_from_civil y (m - 1) d) 0"

section \<open>JavaScript numbers\<close>

text \<open>
  A JavaScript number is an IEEE 754 double: a finite value, which is a rational, one of the
  two infinities, or NaN. The sign of a zero is not modelled: every zero is \<open>+0\<close>, which is
  what the operations below produce from the positive operands of the calculator.
\<close>

datatype Number = Fin rat | PosInf | NegInf | NaN

text \<open>\<open>pow2 e\<close> is \<open>2\<close> to the power \<open>e\<close>, and \<open>ilog2 x\<close> the binary exponent of a positive
  \<open>x\<close>: the integer \<open>e\<close> with \<open>pow2 e \<le> x < pow2 (e + 1)\<close>.\<close>

definition pow2 :: "int \<Rightarrow> rat" where
  "pow2 e = (if 0 \<le> e then 2 ^ nat e else 1 / 2 ^ nat (- e))"

definition ilog2 :: "rat \<Rightarrow> int" where
  "ilog2 x = (if 1 \<le> x then bitlen \<lfloor>x\<rfloor> - 1 else - bitlen (\<lceil>1 / x\<rceil> - 1))"

text \<open>Rounding to the nearest integer, a tie to the even one.\<close>

definition roundHalfEven :: "rat \<Rightarrow> int" where
  "roundHalfEven m =
     (let f = \<lfloor>m\<rfloor>; d = m - of_int f
      in if d < 1 / 2 then f else if 1 / 2 < d then f + 1 else if even f then f else f + 1)"

text \<open>
  The double nearest to a rational, with an unbounded exponent upwards: a significand of 53
  bits, the exponent not below \<open>-1022\<close> (below it the doubles are subnormal, with the spacing
  \<open>pow2 (-1074)\<close>), ties to the even significand. \<open>toNumber\<close> is the rounding of IEEE 754
  in the mode round-to-nearest: a value that rounds to \<open>pow2 1024\<close> or more overflows to an
  infinity.
\<close>

definition nearestDouble :: "rat \<Rightarrow> rat" where
  "nearestDouble x =
     (if x = 0 then 0
      else (let e = max (ilog2 \<bar>x\<bar>) (- 1022); ulp = pow2 (e - 52)
            in of_int (roundHalfEven (x / ulp)) * ulp))"

definition toNumber :: "rat \<Rightarrow> Number" where
  "toNumber x =
     (let y = nearestDouble x
      in if y \<noteq> 0 \<and> 1024 \<le> ilog2 \<bar>y\<bar> then (if 0 < y then PosInf else NegInf) else Fin y)"

text \<open>The operators \<^verbatim>\<open>+\<close>, \<^verbatim>\<open>-\<close>, \<^verbatim>\<open>*\<close> and \<^verbatim>\<open>/\<close>: the exact result of finite operands,
  rounded; the results at an infinity, at NaN and at a zero divisor as IEEE 754 gives them.\<close>

fun num_neg :: "Number \<Rightarrow> Number" where
  "num_neg (Fin x) = Fin (- x)"
| "num_neg PosInf = NegInf"
| "num_neg NegInf = PosInf"
| "num_neg NaN = NaN"

fun num_add :: "Number \<Rightarrow> Number \<Rightarrow> Number" where
  "num_add NaN _ = NaN"
| "num_add _ NaN = NaN"
| "num_add PosInf NegInf = NaN"
| "num_add NegInf PosInf = NaN"
| "num_add PosInf _ = PosInf"
| "num_add _ PosInf = PosInf"
| "num_add NegInf _ = NegInf"
| "num_add _ NegInf = NegInf"
| "num_add (Fin x) (Fin y) = toNumber (x + y)"

definition num_sub :: "Number \<Rightarrow> Number \<Rightarrow> Number" where
  "num_sub a b = num_add a (num_neg b)"

fun num_mul :: "Number \<Rightarrow> Number \<Rightarrow> Number" where
  "num_mul NaN _ = NaN"
| "num_mul _ NaN = NaN"
| "num_mul (Fin x) (Fin y) = toNumber (x * y)"
| "num_mul (Fin x) PosInf = (if x = 0 then NaN else if 0 < x then PosInf else NegInf)"
| "num_mul (Fin x) NegInf = (if x = 0 then NaN else if 0 < x then NegInf else PosInf)"
| "num_mul PosInf (Fin y) = (if y = 0 then NaN else if 0 < y then PosInf else NegInf)"
| "num_mul NegInf (Fin y) = (if y = 0 then NaN else if 0 < y then NegInf else PosInf)"
| "num_mul PosInf PosInf = PosInf"
| "num_mul PosInf NegInf = NegInf"
| "num_mul NegInf PosInf = NegInf"
| "num_mul NegInf NegInf = PosInf"

fun num_div :: "Number \<Rightarrow> Number \<Rightarrow> Number" where
  "num_div NaN _ = NaN"
| "num_div _ NaN = NaN"
| "num_div (Fin x) (Fin y) =
     (if y = 0 then (if x = 0 then NaN else if 0 < x then PosInf else NegInf)
      else toNumber (x / y))"
| "num_div (Fin x) PosInf = Fin 0"
| "num_div (Fin x) NegInf = Fin 0"
| "num_div PosInf (Fin y) = (if 0 \<le> y then PosInf else NegInf)"
| "num_div NegInf (Fin y) = (if 0 \<le> y then NegInf else PosInf)"
| "num_div PosInf PosInf = NaN"
| "num_div PosInf NegInf = NaN"
| "num_div NegInf PosInf = NaN"
| "num_div NegInf NegInf = NaN"

text \<open>
  \<^verbatim>\<open>Math.pow\<close> for an exponent that is a whole number, zero or more. ECMAScript leaves the
  precision of \<^verbatim>\<open>Math.pow\<close> to the implementation; here it is the exact power rounded to the
  nearest double. \<^verbatim>\<open>Math.round\<close> rounds to the nearest integer, a half towards plus
  infinity; on a double the result is exact.
\<close>

fun Math_pow :: "Number \<Rightarrow> nat \<Rightarrow> Number" where
  "Math_pow b 0 = Fin 1"
| "Math_pow NaN (Suc n) = NaN"
| "Math_pow PosInf (Suc n) = PosInf"
| "Math_pow NegInf (Suc n) = (if even n then NegInf else PosInf)"
| "Math_pow (Fin x) (Suc n) = toNumber (x ^ Suc n)"

definition Math_round :: "rat \<Rightarrow> rat" where
  "Math_round x = of_int \<lfloor>x + 1 / 2\<rfloor>"

fun num_round :: "Number \<Rightarrow> Number" where
  "num_round (Fin x) = Fin (Math_round x)"
| "num_round PosInf = PosInf"
| "num_round NegInf = NegInf"
| "num_round NaN = NaN"

section \<open>Loan terms calculator (\<^verbatim>\<open>src/utils/helpers.ts\<close>)\<close>

text \<open>
  \<^verbatim>\<open>
  export const calculateEMI = (principal, rate, tenure) => {
    const monthlyRate = rate / (12 * 100);
    const emi = (principal * monthlyRate * Math.pow(1 + monthlyRate, tenure)) /
                (Math.pow(1 + monthlyRate, tenure) - 1);
    return Math.round(emi * 100) / 100;
  };
  \<close>
  The tenure is a whole number of months (the router validates an integer from 1 to 60).
\<close>

definition calculateEMI :: "Number \<Rightarrow> Number \<Rightarrow> nat \<Rightarrow> Number" where
  "calculateEMI principal' rate tenure' =
     (let monthlyRate = num_div rate (num_mul (Fin 12) (Fin 100));
          emi = num_div
                  (num_mul (num_mul principal' monthlyRate)
                           (Math_pow (num_add (Fin 1) monthlyRate) tenure'))
                  (num_sub (Math_pow (num_add (Fin 1) monthlyRate) tenure') (Fin 1))
      in num_div (num_round (num_mul emi (Fin 100))) (Fin 100))"

section \<open>Overdue and penalty engine (\<^verbatim>\<open>src/services/overdueService.ts\<close>)\<close>

definition calculatePenalty :: "Loan \<Rightarrow> int \<Rightarrow> rat \<Rightarrow> rat" where
  "calculatePenalty loan days amount =
     (if days \<le> 0 then 0
      else if penaltyType loan = PERCENTAGE
        then amount * (penaltyRate loan / 100 / 365) * of_int days
        else penaltyRate loan * of_int days)"

text \<open>
  \<^verbatim>\<open>calculateNextDueDate\<close>. In the branch without a payment the second \<^verbatim>\<open>setMonth\<close> acts on
  \<open>nextDue\<close>, which the first \<^verbatim>\<open>setMonth\<close> has already moved, while its argument is
  computed from the month of the disbursement date.
\<close>

definition calculateNextDueDate :: "date \<Rightarrow> Loan \<Rightarrow> date option" where
  "calculateNextDueDate now loan =
     (case disbursementDate loan of
        None \<Rightarrow> None
      | Some disb \<Rightarrow>
          (case lastPaymentDate loan of
             Some lastPay \<Rightarrow>
               (let nextDue = setMonth lastPay (getMonth lastPay + 1)
                in Some (setDate nextDue (getDate disb)))
           | None \<Rightarrow>
               (let nextDue = setMonth disb (getMonth disb + 1)
                in if nextDue < now
                   then (let monthsSinceDisbursement =
                               \<lfloor>(of_int (now - disb) :: rat) / (1000 * 60 * 60 * 24 * (3044 / 100))\<rfloor>;
                             nextDue' = setMonth nextDue (getMonth disb + monthsSinceDisbursement + 1)
                         in Some (setDate nextDue' (getDate disb)))
                   else Some nextDue)))"

definition notOverdue :: "date option \<Rightarrow> OverdueCalculationResult" where
  "notOverdue due =
     \<lparr>res_isOverdue = False, res_daysOverdue = 0, res_overdueAmount = 0,
      res_penaltyAmount = 0, res_nextDueDate = due\<rparr>"

definition calculateOverdueStatus :: "date \<Rightarrow> Loan \<Rightarrow> OverdueCalculationResult" where
  "calculateOverdueStatus now loan =
     (if status loan \<noteq> ACTIVE then notOverdue None
      else (case calculateNextDueDate now loan of
              None \<Rightarrow> notOverdue None
            | Some due \<Rightarrow>
                if now \<le> due then notOverdue (Some due)
                else (let days = \<lfloor>(of_int (now - due) :: rat) / (1000 * 60 * 60 * 24)\<rfloor>;
                          emi = (case emiAmount loan of None \<Rightarrow> 0 | Some e \<Rightarrow> e);
                          outstanding = outstandingBalance loan;
                          amount = min emi outstanding;
                          penalty = calculatePenalty loan days amount
                      in \<lparr>res_isOverdue = True, res_daysOverdue = days,
                          res_overdueAmount = amount, res_penaltyAmount = penalty,
                          res_nextDueDate = Some due\<rparr>)))"

section \<open>Persistence\<close>

text \<open>
  The database holds the tables as lists of rows. \<^verbatim>\<open>findUnique\<close> returns the row with
  the given id; \<^verbatim>\<open>update\<close> overwrites the listed columns of that row, returns the new row
  and throws when there is none; \<^verbatim>\<open>findMany\<close> filters the table; \<^verbatim>\<open>create\<close> appends
  a row. Of a customer only the id matters here.
\<close>

record Db =
  customers :: "string list"
  loans :: "Loan list"
  payments :: "Payment list"

datatype error = NotFound | WriteFailed

definition findLoan :: "string \<Rightarrow> Db \<Rightarrow> Loan option" where
  "findLoan i db = find (\<lambda>l. loan_id l = i) (loans db)"

definition writeLoan :: "string \<Rightarrow> (Loan \<Rightarrow> Loan) \<Rightarrow> Db \<Rightarrow> Db" where
  "writeLoan i f db = db\<lparr>loans := map (\<lambda>l. if loan_id l = i then f l else l) (loans db)\<rparr>"

definition updateLoan :: "string \<Rightarrow> (Loan \<Rightarrow> Loan) \<Rightarrow> Db \<Rightarrow> error + (Loan \<times> Db)" where
  "updateLoan i f db =
     (case findLoan i db of
        None \<Rightarrow> Inl NotFound
      | Some row \<Rightarrow> Inr (f row, writeLoan i f db))"

definition findActiveLoans :: "Db \<Rightarrow> Loan list" where
  "findActiveLoans db = filter (\<lambda>l. status l = ACTIVE) (loans db)"

definition createPayment :: "Payment \<Rightarrow> Db \<Rightarrow> Db" where
  "createPayment p db = db\<lparr>payments := payments db @ [p]\<rparr>"

section \<open>Overdue engine: persisted updates\<close>

text \<open>
  The \<^verbatim>\<open>data\<close> object that \<^verbatim>\<open>updateLoanOverdueStatus\<close> and the loop of
  \<^verbatim>\<open>updateAllOverdueLoans\<close> pass to \<^verbatim>\<open>prisma.loan.update\<close>: the six columns are computed
  from the loan as it was read (\<open>snapshot\<close>) and written onto the stored row.
\<close>

definition overdueData :: "date \<Rightarrow> Loan \<Rightarrow> Loan \<Rightarrow> Loan" where
  "overdueData now snapshot row =
     (let overdueStatus = calculateOverdueStatus now snapshot
      in row\<lparr>isOverdue := res_isOverdue overdueStatus,
              daysOverdue := res_daysOverdue overdueStatus,
              overdueAmount := res_overdueAmount overdueStatus,
              penaltyAmount := res_penaltyAmount overdueStatus,
              nextDueDate := res_nextDueDate overdueStatus,
              overdueSince := (if res_isOverdue overdueStatus \<and> \<not> isOverdue snapshot
                               then Some now else overdueSince snapshot)\<rparr>)"

definition updateLoanOverdueStatus :: "date \<Rightarrow> string \<Rightarrow> Db \<Rightarrow> error + (Loan \<times> Db)" where
  "updateLoanOverdueStatus now loanId db =
     (case findLoan loanId db of
        None \<Rightarrow> Inl NotFound
      | Some loan \<Rightarrow> updateLoan loanId (overdueData now loan) db)"

text \<open>\<^verbatim>\<open>checkAndMarkDefaulted\<close>: the only column written is \<^verbatim>\<open>status\<close>.\<close>

definition checkAndMarkDefaulted :: "string \<Rightarrow> int \<Rightarrow> Db \<Rightarrow> error + (bool \<times> Db)" where
  "checkAndMarkDefaulted loanId defaultThresholdDays db =
     (case findLoan loanId db of
        None \<Rightarrow> Inr (False, db)
      | Some loan \<Rightarrow>
          if \<not> isOverdue loan then Inr (False, db)
          else if daysOverdue loan \<ge> defaultThresholdDays
            then (case updateLoan loanId (\<lambda>row. row\<lparr>status := DEFAULTED\<rparr>) db of
                    Inl e \<Rightarrow> Inl e
                  | Inr (_, db') \<Rightarrow> Inr (True, db'))
            else Inr (False, db))"

text \<open>
  \<^verbatim>\<open>getOverdueLoans\<close>: a filter is applied when its value is truthy, that is present and
  not zero. The rows come back ordered by \<^verbatim>\<open>daysOverdue\<close>, largest first; among equal
  values the table order is kept.
\<close>

record OverdueFilters =
  minDaysOverdue :: "int option"
  maxDaysOverdue :: "int option"
  minAmount :: "rat option"

definition getOverdueLoans :: "OverdueFilters \<Rightarrow> Db \<Rightarrow> Loan list" where
  "getOverdueLoans filters db =
     sort_key (\<lambda>l. - daysOverdue l)
       (filter (\<lambda>l. isOverdue l \<and> status l = ACTIVE
                  \<and> (case minDaysOverdue filters of
                        None \<Rightarrow> True | Some m \<Rightarrow> m = 0 \<or> daysOverdue l \<ge> m)
                  \<and> (case maxDaysOverdue filters of
                        None \<Rightarrow> True | Some m \<Rightarrow> m = 0 \<or> daysOverdue l \<le> m)
                  \<and> (case minAmount filters of
                        None \<Rightarrow> True | Some a \<Rightarrow> a = 0 \<or> overdueAmount l \<ge> a))
          (loans db))"

section \<open>Batch sweep and scheduled job\<close>

text \<open>
  \<^verbatim>\<open>updateAllOverdueLoans\<close> reads the ACTIVE loans once and then updates them one after
  the other; the loop body is not inside any \<^verbatim>\<open>try\<close>. A write can fail for reasons outside
  the program (the connection, a row deleted meanwhile): \<open>fails\<close> tells for which loan ids
  \<^verbatim>\<open>prisma.loan.update\<close> throws. The rows written before a failure stay written, since the
  sweep runs in no transaction, so the database is returned beside the outcome.
\<close>

record SweepResult =
  totalProcessed :: nat
  newOverdueCount :: nat
  clearedOverdueCount :: nat

fun sweepLoop ::
  "(string \<Rightarrow> bool) \<Rightarrow> date \<Rightarrow> Loan list \<Rightarrow> nat \<Rightarrow> nat \<Rightarrow> Db \<Rightarrow> Db \<times> (error + nat \<times> nat)" where
  "sweepLoop fails now [] newCnt clearedCnt db = (db, Inr (newCnt, clearedCnt))"
| "sweepLoop fails now (loan # rest) newCnt clearedCnt db =
     (let wasOverdue = isOverdue loan;
          overdueStatus = calculateOverdueStatus now loan
      in if fails (loan_id loan) then (db, Inl WriteFailed)
         else (case updateLoan (loan_id loan) (overdueData now loan) db of
                 Inl e \<Rightarrow> (db, Inl e)
               | Inr (_, db') \<Rightarrow>
                   sweepLoop fails now rest
                     (if \<not> wasOverdue \<and> res_isOverdue overdueStatus then newCnt + 1 else newCnt)
                     (if wasOverdue \<and> \<not> res_isOverdue overdueStatus then clearedCnt + 1
                      else clearedCnt)
                     db'))"

definition updateAllOverdueLoans ::
  "(string \<Rightarrow> bool) \<Rightarrow> date \<Rightarrow> Db \<Rightarrow> Db \<times> (error + SweepResult)" where
  "updateAllOverdueLoans fails now db =
     (let activeLoans = findActiveLoans db
      in case sweepLoop fails now activeLoans 0 0 db of
           (db', Inl e) \<Rightarrow> (db', Inl e)
         | (db', Inr (newCnt, clearedCnt)) \<Rightarrow>
             (db', Inr \<lparr>totalProcessed = length activeLoans,
                        newOverdueCount = newCnt,
                        clearedOverdueCount = clearedCnt\<rparr>))"

text \<open>
  The callback of \<^verbatim>\<open>startOverdueCheckJob\<close>: one \<^verbatim>\<open>try\<close> around the sweep and the default
  checks, whose \<^verbatim>\<open>catch\<close> logs the error. The outcome is what the job logs.
\<close>

datatype JobLog = Completed SweepResult nat | ErrorLogged error

fun defaultLoop :: "Loan list \<Rightarrow> nat \<Rightarrow> Db \<Rightarrow> Db \<times> (error + nat)" where
  "defaultLoop [] defaultedCount db = (db, Inr defaultedCount)"
| "defaultLoop (loan # rest) defaultedCount db =
     (case checkAndMarkDefaulted (loan_id loan) 90 db of
        Inl e \<Rightarrow> (db, Inl e)
      | Inr (wasDefaulted, db') \<Rightarrow>
          defaultLoop rest (if wasDefaulted then defaultedCount + 1 else defaultedCount) db')"

definition overdueCheckJob :: "(string \<Rightarrow> bool) \<Rightarrow> date \<Rightarrow> Db \<Rightarrow> Db \<times> JobLog" where
  "overdueCheckJob fails now db =
     (case updateAllOverdueLoans fails now db of
        (db1, Inl e) \<Rightarrow> (db1, ErrorLogged e)
      | (db1, Inr result) \<Rightarrow>
          (let overdueLoans =
                 getOverdueLoans
                   \<lparr>minDaysOverdue = Some 90, maxDaysOverdue = None, minAmount = None\<rparr> db1
           in case defaultLoop overdueLoans 0 db1 of
                (db2, Inl e) \<Rightarrow> (db2, ErrorLogged e)
              | (db2, Inr defaultedCount) \<Rightarrow> (db2, Completed result defaultedCount)))"

section \<open>Payment ledger (\<^verbatim>\<open>src/routes/payments.ts\<close>, \<^verbatim>\<open>POST /api/payments\<close>)\<close>

record CreatePaymentRequest =
  req_loanId :: string
  req_amount :: rat
  req_paymentType :: PaymentType
  req_paymentMethod :: string

text \<open>
  The \<^verbatim>\<open>data\<close> object of the balance update inside the transaction, computed from the
  loan as read inside the transaction (\<open>updatedLoan\<close>) and written onto the stored row.
\<close>

definition balanceData :: "date \<Rightarrow> rat \<Rightarrow> Loan \<Rightarrow> Loan \<Rightarrow> Loan" where
  "balanceData now amount updatedLoan row =
     (let newTotalPaid = totalAmountPaid updatedLoan + amount;
          newOutstanding = outstandingBalance updatedLoan - amount
      in row\<lparr>totalAmountPaid := newTotalPaid,
              outstandingBalance := max 0 newOutstanding,
              lastPaymentDate := Some now,
              status := (if newOutstanding \<le> 0 then COMPLETED else status updatedLoan)\<rparr>)"

text \<open>
  The body of \<^verbatim>\<open>prisma.$transaction\<close>: the payment row is created as COMPLETED, and for
  the three amortising payment types the loan is read again and its balance columns are
  written. The receipt number is \<^verbatim>\<open>RCP\<close> followed by the clock value; the record keeps the
  number.
\<close>

definition paymentTransaction :: "date \<Rightarrow> CreatePaymentRequest \<Rightarrow> Db \<Rightarrow> Payment \<times> Db" where
  "paymentTransaction now req db =
     (let payment = \<lparr>pay_loanId = req_loanId req, pay_amount = req_amount req,
                     paymentType = req_paymentType req,
                     paymentMethod = req_paymentMethod req,
                     receiptNumber = Some now, pay_status = PAY_COMPLETED\<rparr>;
          db1 = createPayment payment db
      in if req_paymentType req \<in> set [EMI_PAYMENT, PARTIAL_PAYMENT, LOAN_CLOSURE]
         then (case findLoan (req_loanId req) db1 of
                 None \<Rightarrow> (payment, db1)
               | Some updatedLoan \<Rightarrow>
                   (payment,
                    writeLoan (req_loanId req)
                      (balanceData now (req_amount req) updatedLoan) db1))
         else (payment, db1))"

text \<open>
  The handler: 404 when the loan is missing, then the transaction, then the refresh of
  the overdue snapshot, whose failure is caught and only logged.
\<close>

definition recordPayment :: "date \<Rightarrow> CreatePaymentRequest \<Rightarrow> Db \<Rightarrow> error + (Payment \<times> Db)" where
  "recordPayment now req db =
     (case findLoan (req_loanId req) db of
        None \<Rightarrow> Inl NotFound
      | Some loan \<Rightarrow>
          (case paymentTransaction now req db of
             (payment, db1) \<Rightarrow>
               (case updateLoanOverdueStatus now (req_loanId req) db1 of
                  Inl e \<Rightarrow> Inr (payment, db1)
                | Inr (_, db2) \<Rightarrow> Inr (payment, db2))))"

section \<open>Loans router (\<^verbatim>\<open>POST /api/loans\<close>, approve, reject, disburse)\<close>

definition calculateLTV :: "rat \<Rightarrow> rat \<Rightarrow> rat" where
  "calculateLTV loanAmount goldValue = Math_round ((loanAmount / goldValue) * 100 * 100) / 100"

text \<open>A gold item of the request is its weight and its current rate.\<close>

record CreateLoanRequest =
  req_customerId :: string
  req_principalAmount :: rat
  req_interestRate :: rat
  req_tenure :: nat
  req_goldItems :: "(rat \<times> rat) list"

text \<open>
  The seeds hold \<^verbatim>\<open>emiAmount\<close> with two decimal places, and the decimal column is taken to
  have two: a number written to it is stored as the nearest whole number of hundredths,
  which for a result of \<open>calculateEMI\<close>, the double nearest to some number of hundredths, is
  that number. An infinity or NaN is refused by the database client.
\<close>

fun toDecimal :: "Number \<Rightarrow> rat option" where
  "toDecimal (Fin x) = Some (Math_round (x * 100) / 100)"
| "toDecimal PosInf = None"
| "toDecimal NegInf = None"
| "toDecimal NaN = None"

text \<open>
  \<^verbatim>\<open>POST /api/loans\<close>. The maturity date is computed from the clock at creation:
  \<^verbatim>\<open>const maturityDate = new Date(); maturityDate.setMonth(maturityDate.getMonth() + loanData.tenure)\<close>.
  The columns that the handler does not list take the defaults of the schema, which is not
  in the sources: they are the row \<open>defaults\<close>. The generated id is \<open>newId\<close>. The principal
  and the rate of the request are JSON numbers, hence doubles; the EMI is the double that
  \<open>calculateEMI\<close> returns, written to the decimal column \<^verbatim>\<open>emiAmount\<close>.
\<close>

definition createLoan ::
  "date \<Rightarrow> string \<Rightarrow> Loan \<Rightarrow> CreateLoanRequest \<Rightarrow> Db \<Rightarrow> error + (Loan \<times> Db)" where
  "createLoan now newId defaults req db =
     (if req_customerId req \<notin> set (customers db) then Inl NotFound
      else
        (let goldItems = req_goldItems req;
             hasGoldItems = (length goldItems > 0);
             goldWeight = (if hasGoldItems then foldl (\<lambda>sum item. sum + fst item) 0 goldItems else 0);
             goldValue = (if hasGoldItems
                          then foldl (\<lambda>sum item. sum + fst item * snd item) 0 goldItems else 0);
             ltv = (if goldValue > 0 then calculateLTV (req_principalAmount req) goldValue else 0);
             emi = calculateEMI (Fin (req_principalAmount req)) (Fin (req_interestRate req))
                     (req_tenure req);
             maturity = setMonth now (getMonth now + int (req_tenure req))
         in (case toDecimal emi of
               None \<Rightarrow> Inl WriteFailed
             | Some emiDecimal \<Rightarrow>
                 (let loan = defaults\<lparr>loan_id := newId,
                                       principalAmount := req_principalAmount req,
                                       interestRate := req_interestRate req,
                                       tenure := req_tenure req,
                                       emiAmount := Some emiDecimal,
                                       outstandingBalance := req_principalAmount req,
                                       totalAmountPaid := 0,
                                       totalGoldWeight := goldWeight,
                                       totalGoldValue := goldValue,
                                       ltvRatio := ltv,
                                       maturityDate := Some maturity\<rparr>
                  in Inr (loan, db\<lparr>loans := loans db @ [loan]\<rparr>)))))"

definition approveLoan :: "date \<Rightarrow> string \<Rightarrow> Db \<Rightarrow> error + (Loan \<times> Db)" where
  "approveLoan now i db =
     updateLoan i (\<lambda>row. row\<lparr>status := APPROVED, approvalDate := Some now\<rparr>) db"

definition rejectLoan :: "string \<Rightarrow> Db \<Rightarrow> error + (Loan \<times> Db)" where
  "rejectLoan i db = updateLoan i (\<lambda>row. row\<lparr>status := REJECTED\<rparr>) db"

text \<open>\<^verbatim>\<open>PUT /api/loans/:id/disburse\<close> writes the status and the disbursement date, nothing
  else, and records the disbursement payment.\<close>

definition disburseLoan :: "date \<Rightarrow> string \<Rightarrow> Db \<Rightarrow> error + (Loan \<times> Db)" where
  "disburseLoan now i db =
     (case updateLoan i (\<lambda>row. row\<lparr>status := ACTIVE, disbursementDate := Some now\<rparr>) db of
        Inl e \<Rightarrow> Inl e
      | Inr (loan, db1) \<Rightarrow>
          Inr (loan,
               createPayment
                 \<lparr>pay_loanId = i, pay_amount = principalAmount loan,
                  paymentType = LOAN_DISBURSEMENT, paymentMethod = ''Bank Transfer'',
                  receiptNumber = None, pay_status = PAY_COMPLETED\<rparr>
                 db1))"

section \<open>Auxiliary definitions and example data\<close>

text \<open>
  The database after the overdue snapshot of each loan of \<open>ls\<close> has been recomputed from
  the row itself and written; every other row is as it was.
\<close>

definition refreshed :: "date \<Rightarrow> Loan list \<Rightarrow> Db \<Rightarrow> Db" where
  "refreshed now ls db =
     db\<lparr>loans := map (\<lambda>l. if l \<in> set ls then overdueData now l l else l) (loans db)\<rparr>"

text \<open>Two choices of the writes that fail: the write to loan \<open>L2\<close>, and none.\<close>

definition failsL2 :: "string \<Rightarrow> bool" where
  "failsL2 i = (i = ''L2'')"

definition neverFails :: "string \<Rightarrow> bool" where
  "neverFails i = False"

text \<open>
  A loan of 100000 at 12 percent over 12 months, disbursed on 2024-01-17, with the EMI that
  \<open>calculateEMI\<close> gives; the database that holds it; an EMI payment request.
\<close>

definition exLoan :: Loan where
  "exLoan =
     \<lparr>loan_id = ''L1'', status = ACTIVE, principalAmount = 100000, interestRate = 12,
      tenure = 12, emiAmount = Some (888488 / 100), totalGoldWeight = 0, totalGoldValue = 0,
      ltvRatio = 0, outstandingBalance = 100000, totalAmountPaid = 0, approvalDate = None,
      disbursementDate = Some (ymd 2024 1 17), maturityDate = Some (ymd 2025 1 17),
      lastPaymentDate = None, isOverdue = False, daysOverdue = 0, overdueAmount = 0,
      penaltyAmount = 0, nextDueDate = None, overdueSince = None, penaltyRate = 24,
      penaltyType = PERCENTAGE\<rparr>"



text \<open>The same loan after its first EMI, paid on 2024-02-17, alone and three times over.\<close>

definition exLoanPaid :: Loan where
  "exLoanPaid = exLoan\<lparr>outstandingBalance := 9111512 / 100, totalAmountPaid := 888488 / 100,
      lastPaymentDate := Some (ymd 2024 2 17)\<rparr>"

definition exDbPaid :: Db where
  "exDbPaid = \<lparr>customers = [''C1''], loans = [exLoanPaid], payments = []\<rparr>"

definition exDb3 :: Db where
  "exDb3 = \<lparr>customers = [''C1''],
            loans = [exLoanPaid, exLoanPaid\<lparr>loan_id := ''L2''\<rparr>, exLoanPaid\<lparr>loan_id := ''L3''\<rparr>],
            payments = []\<rparr>"

text \<open>The loan flagged overdue on 2024-03-18 and paid on 2024-03-25, as the payment
  transaction leaves it, and as the next recomputation leaves it.\<close>

definition exLoanRecovered :: Loan where
  "exLoanRecovered = exLoanPaid\<lparr>lastPaymentDate := Some (ymd 2024 3 25), isOverdue := True,
      daysOverdue := 7, overdueAmount := 888488 / 100, penaltyAmount := 4,
      nextDueDate := Some (ymd 2024 3 17), overdueSince := Some (ymd 2024 3 18)\<rparr>"

definition exDbRecovered :: Db where
  "exDbRecovered = \<lparr>customers = [''C1''], loans = [exLoanRecovered], payments = []\<rparr>"

definition exLoanCleared :: Loan where
  "exLoanCleared = exLoanRecovered\<lparr>isOverdue := False, daysOverdue := 0, overdueAmount := 0,
      penaltyAmount := 0, nextDueDate := Some (ymd 2024 4 17)\<rparr>"

text \<open>The loan persisted as 100 days overdue; the loan rejected; a closing payment.\<close>

definition exLoanLate :: Loan where
  "exLoanLate = exLoanPaid\<lparr>isOverdue := True, daysOverdue := 100,
      overdueAmount := 888488 / 100, penaltyAmount := 58,
      nextDueDate := Some (ymd 2024 3 17), overdueSince := Some (ymd 2024 3 18)\<rparr>"

definition exDbLate :: Db where
  "exDbLate = \<lparr>customers = [''C1''], loans = [exLoanLate], payments = []\<rparr>"


definition exClosure :: CreatePaymentRequest where
  "exClosure =
     \<lparr>req_loanId = ''L1'', req_amount = 100000, req_paymentType = LOAN_CLOSURE,
      req_paymentMethod = ''CASH''\<rparr>"

text \<open>The loan disbursed on 2023-12-15 and never paid.\<close>

definition exLoanDec :: Loan where
  "exLoanDec = exLoan\<lparr>disbursementDate := Some (ymd 2023 12 15),
                      maturityDate := Some (ymd 2024 12 15)\<rparr>"

text \<open>A loan application for customer \<open>C1\<close>, the column defaults of a new row, and the row
  that \<open>createLoan\<close> makes of them on 2024-01-10.\<close>

definition exDefaults :: Loan where
  "exDefaults =
     \<lparr>loan_id = [], status = PENDING, principalAmount = 0, interestRate = 0,
      tenure = 0, emiAmount = None, totalGoldWeight = 0, totalGoldValue = 0,
      ltvRatio = 0, outstandingBalance = 0, totalAmountPaid = 0, approvalDate = None,
      disbursementDate = None, maturityDate = None,
      lastPaymentDate = None, isOverdue = False, daysOverdue = 0, overdueAmount = 0,
      penaltyAmount = 0, nextDueDate = None, overdueSince = None, penaltyRate = 2,
      penaltyType = PERCENTAGE\<rparr>"

definition exLoanRequest :: CreateLoanRequest where
  "exLoanRequest =
     \<lparr>req_customerId = ''C1'', req_principalAmount = 100000, req_interestRate = 12,
      req_tenure = 12, req_goldItems = [(20, 6250)]\<rparr>"

definition exDbEmpty :: Db where
  "exDbEmpty = \<lparr>customers = [''C1''], loans = [], payments = []\<rparr>"

definition exLoanCreated :: Loan where
  "exLoanCreated = exDefaults\<lparr>loan_id := ''L9'', principalAmount := 100000, interestRate := 12,
      tenure := 12, emiAmount := Some (888488 / 100), totalGoldWeight := 20,
      totalGoldValue := 125000, ltvRatio := 80, outstandingBalance := 100000,
      maturityDate := Some (ymd 2025 1 10)\<rparr>"

text \<open>The instalment of the amortisation formula as the specification writes it, over the
  rationals and unrounded: \<open>P r (1 + r) ^ n / ((1 + r) ^ n - 1)\<close> with \<open>r = rate / 1200\<close>.\<close>

definition emiExact :: "rat \<Rightarrow> rat \<Rightarrow> nat \<Rightarrow> rat" where
  "emiExact P rate n = (let r = rate / 1200 in P * r * (1 + r) ^ n / ((1 + r) ^ n - 1))"

text \<open>The unit roundoff of the doubles, \<open>2\<^sup>-\<^sup>5\<^sup>3\<close>, and the relation "\<open>y\<close> is \<open>x\<close> up to the
  relative error \<open>e\<close>".\<close>

definition eps :: rat where
  "eps = 1 / 2 ^ 53"

definition approx :: "rat \<Rightarrow> rat \<Rightarrow> rat \<Rightarrow> bool" where
  "approx e y x \<longleftrightarrow> \<bar>y - x\<bar> \<le> e * \<bar>x\<bar>"

section \<open>Auxiliary lemmas\<close>

lemma Math_round_near: "\<bar>Math_round x - x\<bar> \<le> 1 / 2"
proof -
  have "of_int \<lfloor>x + 1 / 2\<rfloor> \<le> x + 1 / 2" by (rule of_int_floor_le)
  moreover have "x + 1 / 2 < of_int \<lfloor>x + 1 / 2\<rfloor> + 1"
    using floor_correct[of "x + 1 / 2"] by simp
  ultimately show ?thesis unfolding Math_round_def by linarith
qed

subsection \<open>Doubles\<close>

lemma pow2_powi: "pow2 e = 2 powi e"
  by (simp add: pow2_def power_int_def inverse_eq_divide power_one_over)

lemma pow2_pos [simp]: "0 < pow2 e"
  by (simp add: pow2_powi)

lemma pow2_Suc: "pow2 (e + 1) = 2 * pow2 e"
  by (simp add: pow2_powi power_int_add)

lemma pow2_add: "pow2 (a + b) = pow2 a * pow2 b"
  by (simp add: pow2_powi power_int_add)

lemma pow2_mono: "a \<le> b \<Longrightarrow> pow2 a \<le> pow2 b"
  by (simp add: pow2_powi power_int_increasing)

lemma pow2_strict_mono: "a < b \<Longrightarrow> pow2 a < pow2 b"
  by (simp add: pow2_powi power_int_strict_increasing)

lemma pow2_le_iff: "pow2 a \<le> pow2 b \<longleftrightarrow> a \<le> b"
  using pow2_mono[of a b] pow2_strict_mono[of b a] by (auto simp: not_le[symmetric])

lemma pow2_nat: "0 \<le> e \<Longrightarrow> pow2 e = of_int (2 ^ nat e)"
  by (simp add: pow2_def)

lemma ilog2_bounds:
  assumes "0 < x"
  shows "pow2 (ilog2 x) \<le> x \<and> x < pow2 (ilog2 x + 1)"
proof (cases "1 \<le> x")
  case True
  then have fl: "0 < \<lfloor>x\<rfloor>" by simp
  let ?b = "bitlen \<lfloor>x\<rfloor>"
  from bitlen_bounds[OF fl] have lo: "2 ^ nat (?b - 1) \<le> \<lfloor>x\<rfloor>" and hi: "\<lfloor>x\<rfloor> < 2 ^ nat ?b"
    by auto
  have b1: "1 \<le> ?b" using fl by (simp add: bitlen_alt_def)
  have "pow2 (?b - 1) = of_int (2 ^ nat (?b - 1))" using b1 by (simp add: pow2_nat)
  also have "\<dots> \<le> of_int \<lfloor>x\<rfloor>" using lo by (simp only: of_int_le_iff)
  also have "\<dots> \<le> x" by simp
  finally have L: "pow2 (?b - 1) \<le> x" .
  have "\<lfloor>x\<rfloor> + 1 \<le> 2 ^ nat ?b" using hi by simp
  then have "of_int (\<lfloor>x\<rfloor> + 1) \<le> (of_int (2 ^ nat ?b) :: rat)" by (simp only: of_int_le_iff)
  moreover have "x < of_int (\<lfloor>x\<rfloor> + 1)" by linarith
  ultimately have "x < of_int (2 ^ nat ?b)" by linarith
  then have U: "x < pow2 ?b" using b1 by (simp only: pow2_nat)
  from L U True show ?thesis by (simp add: ilog2_def)
next
  case False
  then have x1: "x < 1" by simp
  let ?y = "1 / x"
  have y1: "1 < ?y" using assms x1 by simp
  let ?c = "\<lceil>?y\<rceil>"
  have c2: "2 \<le> ?c" using y1 by linarith
  then have c0: "0 < ?c - 1" by simp
  let ?b = "bitlen (?c - 1)"
  from bitlen_bounds[OF c0] have lo: "2 ^ nat (?b - 1) \<le> ?c - 1" and hi: "?c - 1 < 2 ^ nat ?b"
    by auto
  have b1: "1 \<le> ?b" using c0 by (simp add: bitlen_alt_def)
  have "of_int (2 ^ nat (?b - 1)) \<le> (of_int (?c - 1) :: rat)" using lo by (simp only: of_int_le_iff)
  moreover have "of_int (?c - 1) < ?y" by linarith
  ultimately have "of_int (2 ^ nat (?b - 1)) < ?y" by linarith
  then have ylo: "pow2 (?b - 1) < ?y" using b1 by (simp only: pow2_nat)
  have "?c \<le> 2 ^ nat ?b" using hi by simp
  then have "of_int ?c \<le> (of_int (2 ^ nat ?b) :: rat)" by (simp only: of_int_le_iff)
  moreover have "?y \<le> of_int ?c" by linarith
  ultimately have "?y \<le> of_int (2 ^ nat ?b)" by linarith
  then have yhi: "?y \<le> pow2 ?b" using b1 by (simp only: pow2_nat)
  have inv: "pow2 (- ?b) = 1 / pow2 ?b" "pow2 (- ?b + 1) = 1 / pow2 (?b - 1)"
    by (simp_all add: pow2_powi power_int_minus inverse_eq_divide)
       (metis (no_types) add.commute minus_diff_eq power_int_minus inverse_eq_divide uminus_add_conv_diff)
  have L: "pow2 (- ?b) \<le> x"
    unfolding inv using yhi assms pow2_pos[of ?b] by (simp add: field_simps)
  have U: "x < pow2 (- ?b + 1)"
    unfolding inv using ylo assms pow2_pos[of "?b - 1"] by (simp add: field_simps)
  from L U False show ?thesis by (simp add: ilog2_def)
qed

lemma ilog2_unique:
  assumes "0 < x" "pow2 e \<le> x" "x < pow2 (e + 1)"
  shows "ilog2 x = e"
proof -
  from ilog2_bounds[OF assms(1)] have a: "pow2 (ilog2 x) \<le> x" and b: "x < pow2 (ilog2 x + 1)"
    by auto
  have "pow2 e < pow2 (ilog2 x + 1)" using assms(2) b by linarith
  then have 1: "e < ilog2 x + 1" using pow2_le_iff[of "ilog2 x + 1" e] by auto
  have "pow2 (ilog2 x) < pow2 (e + 1)" using a assms(3) by linarith
  then have 2: "ilog2 x < e + 1" using pow2_le_iff[of "e + 1" "ilog2 x"] by auto
  from 1 2 show ?thesis by simp
qed

lemma roundHalfEven_near:
  assumes "\<bar>m - of_int r\<bar> < 1 / 2"
  shows "roundHalfEven m = r"
proof -
  have "\<lfloor>m\<rfloor> = r \<or> \<lfloor>m\<rfloor> = r - 1" using assms by linarith
  then show ?thesis
  proof
    assume f: "\<lfloor>m\<rfloor> = r"
    have "of_int \<lfloor>m\<rfloor> = (of_int r :: rat)" using f by simp
    then have "m - of_int \<lfloor>m\<rfloor> < 1 / 2" using assms by linarith
    then show ?thesis using f by (simp add: roundHalfEven_def Let_def)
  next
    assume f: "\<lfloor>m\<rfloor> = r - 1"
    have "of_int \<lfloor>m\<rfloor> = (of_int r :: rat) - 1" using f by simp
    then have "1 / 2 < m - of_int \<lfloor>m\<rfloor>" using assms by linarith
    then show ?thesis using f by (simp add: roundHalfEven_def Let_def)
  qed
qed

lemma roundHalfEven_half: "\<bar>of_int (roundHalfEven m) - m\<bar> \<le> 1 / 2"
proof -
  have b: "of_int \<lfloor>m\<rfloor> \<le> m" "m < of_int \<lfloor>m\<rfloor> + 1" by linarith+
  consider "m - of_int \<lfloor>m\<rfloor> < 1 / 2" | "1 / 2 < m - of_int \<lfloor>m\<rfloor>"
    | "m - of_int \<lfloor>m\<rfloor> = 1 / 2" by linarith
  then show ?thesis
  proof cases
    case 1
    then have "roundHalfEven m = \<lfloor>m\<rfloor>" by (simp add: roundHalfEven_def Let_def)
    then show ?thesis using 1 b by simp
  next
    case 2
    then have "roundHalfEven m = \<lfloor>m\<rfloor> + 1" by (simp add: roundHalfEven_def Let_def)
    then show ?thesis using 2 b by simp
  next
    case 3
    then have "roundHalfEven m = \<lfloor>m\<rfloor> \<or> roundHalfEven m = \<lfloor>m\<rfloor> + 1"
      by (simp add: roundHalfEven_def Let_def)
    then show ?thesis using 3 b by auto
  qed
qed

lemma pow2_abs [simp]: "\<bar>pow2 e\<bar> = pow2 e"
  by (rule abs_of_pos) simp

lemma nearestDouble_eval:
  assumes "x \<noteq> 0" "pow2 e \<le> \<bar>x\<bar>" "\<bar>x\<bar> < pow2 (e + 1)" "- 1022 \<le> e"
    and "\<bar>x / pow2 (e - 52) - of_int r\<bar> < 1 / 2"
  shows "nearestDouble x = of_int r * pow2 (e - 52)"
proof -
  have "ilog2 \<bar>x\<bar> = e" using assms(1,2,3) by (intro ilog2_unique) auto
  then have "max (ilog2 \<bar>x\<bar>) (- 1022) = e" using assms(4) by simp
  then show ?thesis
    using assms(1) roundHalfEven_near[OF assms(5)] by (simp add: nearestDouble_def Let_def)
qed

lemma toNumber_eval:
  assumes "x \<noteq> 0" "pow2 e \<le> \<bar>x\<bar>" "\<bar>x\<bar> < pow2 (e + 1)" "- 1022 \<le> e" "e \<le> 1022"
    and "\<bar>x / pow2 (e - 52) - of_int r\<bar> < 1 / 2"
  shows "toNumber x = Fin (of_int r * pow2 (e - 52))"
proof -
  let ?u = "pow2 (e - 52)"
  have nd: "nearestDouble x = of_int r * ?u"
    using nearestDouble_eval[OF assms(1,2,3,4,6)] .
  have u: "0 < ?u" by simp
  have "pow2 (e + 1) = ?u * pow2 53" using pow2_add[of "e - 52" 53] by (simp add: add.commute)
  then have "\<bar>x\<bar> / ?u < pow2 53" using assms(3) u by (simp add: field_simps)
  moreover have "\<bar>?u\<bar> = ?u" using u by (rule abs_of_pos)
  ultimately have "\<bar>x / ?u\<bar> < pow2 53" by (simp only: abs_divide)
  then have "\<bar>(of_int r :: rat)\<bar> < pow2 53 + 1 / 2" using assms(6) by linarith
  then have "\<bar>(of_int r :: rat)\<bar> < 2 * pow2 53" by (simp add: pow2_def)
  then have "\<bar>(of_int r :: rat)\<bar> * ?u < 2 * pow2 53 * ?u" using u by simp
  also have "2 * pow2 53 * ?u = pow2 (e + 2)"
    using pow2_add[of "e - 52" 53] pow2_Suc[of "e + 1"] by (simp add: ac_simps)
  also have "\<dots> \<le> pow2 1024" using assms(5) by (intro pow2_mono) simp
  finally have yb: "\<bar>of_int r * ?u\<bar> < pow2 1024" using u by (simp add: abs_mult)
  have "\<not> (of_int r * ?u \<noteq> 0 \<and> 1024 \<le> ilog2 \<bar>of_int r * ?u\<bar>)"
  proof
    assume a: "of_int r * ?u \<noteq> 0 \<and> 1024 \<le> ilog2 \<bar>of_int r * ?u\<bar>"
    then have "0 < \<bar>of_int r * ?u\<bar>" by simp
    from ilog2_bounds[OF this] have "pow2 (ilog2 \<bar>of_int r * ?u\<bar>) \<le> \<bar>of_int r * ?u\<bar>" by simp
    moreover have "pow2 1024 \<le> pow2 (ilog2 \<bar>of_int r * ?u\<bar>)" using a by (intro pow2_mono) simp
    ultimately show False using yb by linarith
  qed
  then show ?thesis unfolding toNumber_def Let_def nd by (simp only: if_False)
qed

lemma toNumber_zero [simp]: "toNumber 0 = Fin 0"
  by (simp add: toNumber_def nearestDouble_def)

lemma Math_pow_Fin: "0 < n \<Longrightarrow> Math_pow (Fin x) n = toNumber (x ^ n)"
  by (cases n) simp_all

text \<open>The relative error of a rounding, and how relative errors add up through products,
  quotients and powers.\<close>

lemma pow2_nonzero [simp]: "pow2 e \<noteq> 0"
  using pow2_pos[of e] by (simp only: less_le) simp

lemma eps_pow2: "eps = pow2 (- 53)"
  by (simp add: eps_def pow2_def)

lemma nearestDouble_rel:
  assumes "pow2 (- 1022) \<le> \<bar>x\<bar>"
  shows "\<bar>nearestDouble x - x\<bar> \<le> eps * \<bar>x\<bar>"
proof -
  have "(0::rat) < pow2 (- 1022)" by simp
  with assms have xp: "0 < \<bar>x\<bar>" by linarith
  then have x0: "x \<noteq> 0" by simp
  define e where "e = ilog2 \<bar>x\<bar>"
  from ilog2_bounds[OF xp] have lo: "pow2 e \<le> \<bar>x\<bar>" and hi: "\<bar>x\<bar> < pow2 (e + 1)"
    by (auto simp: e_def)
  have "pow2 (- 1022) < pow2 (e + 1)" using assms hi by linarith
  then have "- 1022 < e + 1" using pow2_le_iff[of "e + 1" "- 1022"] by auto
  then have m: "max e (- 1022) = e" by simp
  let ?u = "pow2 (e - 52)"
  define R where "R = roundHalfEven (x / ?u)"
  have nd: "nearestDouble x = of_int R * ?u"
    using x0 m by (simp add: nearestDouble_def Let_def e_def[symmetric] R_def)
  have u: "0 < ?u" by simp
  have "\<bar>of_int R - x / ?u\<bar> \<le> 1 / 2" unfolding R_def by (rule roundHalfEven_half)
  then have "\<bar>of_int R - x / ?u\<bar> * ?u \<le> 1 / 2 * ?u" using u by (simp only: mult_le_cancel_right_pos)
  moreover have "\<bar>of_int R - x / ?u\<bar> * ?u = \<bar>of_int R * ?u - x\<bar>"
  proof -
    have "\<bar>of_int R - x / ?u\<bar> * ?u = \<bar>(of_int R - x / ?u) * ?u\<bar>" by (simp add: abs_mult)
    also have "(of_int R - x / ?u) * ?u = of_int R * ?u - x" using u by (simp add: field_simps)
    finally show ?thesis .
  qed
  moreover have "1 / 2 * ?u = eps * pow2 e"
    using pow2_add[of e "- 53"] by (simp add: eps_pow2) (simp add: pow2_Suc[of "e - 53", simplified] )
  moreover have "eps * pow2 e \<le> eps * \<bar>x\<bar>" using lo by (simp add: eps_def)
  ultimately show ?thesis unfolding nd by linarith
qed


lemma toNumber_normal:
  assumes "pow2 (- 1022) \<le> \<bar>x\<bar>" and "\<bar>x\<bar> \<le> pow2 1023"
  shows "toNumber x = Fin (nearestDouble x)"
proof -
  let ?y = "nearestDouble x"
  have "\<bar>?y - x\<bar> \<le> eps * \<bar>x\<bar>" using nearestDouble_rel[OF assms(1)] .
  then have "\<bar>?y\<bar> \<le> \<bar>x\<bar> + eps * \<bar>x\<bar>" by linarith
  also have "\<dots> = (1 + eps) * \<bar>x\<bar>" by (simp add: algebra_simps)
  also have "\<dots> \<le> (1 + eps) * pow2 1023" using assms(2) by (simp add: eps_def)
  also have "\<dots> < 2 * pow2 1023" by (simp add: eps_def)
  also have "\<dots> = pow2 1024" using pow2_Suc[of 1023] by simp
  finally have yb: "\<bar>?y\<bar> < pow2 1024" .
  have "\<not> (?y \<noteq> 0 \<and> 1024 \<le> ilog2 \<bar>?y\<bar>)"
  proof
    assume a: "?y \<noteq> 0 \<and> 1024 \<le> ilog2 \<bar>?y\<bar>"
    then have "0 < \<bar>?y\<bar>" by simp
    from ilog2_bounds[OF this] have "pow2 (ilog2 \<bar>?y\<bar>) \<le> \<bar>?y\<bar>" by simp
    moreover have "pow2 1024 \<le> pow2 (ilog2 \<bar>?y\<bar>)" using a by (intro pow2_mono) simp
    ultimately show False using yb by linarith
  qed
  then show ?thesis unfolding toNumber_def Let_def by (simp only: if_False)
qed

text \<open>Between \<open>10\<^sup>-\<^sup>3\<^sup>0\<close> and \<open>10\<^sup>3\<^sup>0\<close> a value rounds to a finite positive double with a
  relative error of at most \<open>eps\<close>.\<close>

lemma toNumber_window:
  assumes "1 / 10 ^ 30 \<le> x" and "x \<le> 10 ^ 30"
  shows "toNumber x = Fin (nearestDouble x)" and "approx eps (nearestDouble x) x"
    and "0 < nearestDouble x"
proof -
  have xp: "0 < x" using assms(1) by (rule less_le_trans[rotated]) simp
  have "pow2 (- 1022) \<le> pow2 (- 100)" by (rule pow2_mono) simp
  also have "\<dots> \<le> 1 / 10 ^ 30" by (simp add: pow2_def)
  finally have lo: "pow2 (- 1022) \<le> \<bar>x\<bar>" using assms(1) xp by simp
  have "(10::rat) ^ 30 \<le> pow2 100" by (simp add: pow2_def)
  also have "\<dots> \<le> pow2 1023" by (rule pow2_mono) simp
  finally have hi: "\<bar>x\<bar> \<le> pow2 1023" using assms(2) xp by simp
  show "toNumber x = Fin (nearestDouble x)" using toNumber_normal[OF lo hi] .
  have r: "\<bar>nearestDouble x - x\<bar> \<le> eps * \<bar>x\<bar>" using nearestDouble_rel[OF lo] .
  then show "approx eps (nearestDouble x) x" by (simp add: approx_def)
  have "eps * x \<le> x / 2" using xp by (simp add: eps_def)
  moreover have "x - nearestDouble x \<le> eps * x" using r xp by (simp add: abs_le_iff)
  ultimately show "0 < nearestDouble x" using xp by linarith
qed

lemma approx_refl: "0 \<le> e \<Longrightarrow> approx e x x"
  by (simp add: approx_def)

lemma approx_weaken: "approx e y x \<Longrightarrow> e \<le> e' \<Longrightarrow> approx e' y x"
  unfolding approx_def by (meson abs_ge_zero mult_right_mono order_trans)

lemma approx_mult:
  assumes "approx e1 y1 x1" and "approx e2 y2 x2" and "0 \<le> e1" and "0 \<le> e2"
  shows "approx (e1 + e2 + e1 * e2) (y1 * y2) (x1 * x2)"
proof -
  have a: "\<bar>y1 - x1\<bar> \<le> e1 * \<bar>x1\<bar>" and b: "\<bar>y2 - x2\<bar> \<le> e2 * \<bar>x2\<bar>"
    using assms by (simp_all add: approx_def)
  have "y1 * y2 - x1 * x2 = (y1 - x1) * x2 + x1 * (y2 - x2) + (y1 - x1) * (y2 - x2)"
    by (simp add: algebra_simps)
  then have "\<bar>y1 * y2 - x1 * x2\<bar>
      \<le> \<bar>y1 - x1\<bar> * \<bar>x2\<bar> + \<bar>x1\<bar> * \<bar>y2 - x2\<bar> + \<bar>y1 - x1\<bar> * \<bar>y2 - x2\<bar>"
    by (simp add: abs_mult[symmetric])
  also have "\<dots> \<le> e1 * \<bar>x1\<bar> * \<bar>x2\<bar> + \<bar>x1\<bar> * (e2 * \<bar>x2\<bar>) + e1 * \<bar>x1\<bar> * (e2 * \<bar>x2\<bar>)"
  proof -
    have 1: "\<bar>y1 - x1\<bar> * \<bar>x2\<bar> \<le> e1 * \<bar>x1\<bar> * \<bar>x2\<bar>" using a by (simp add: mult_right_mono)
    have 2: "\<bar>x1\<bar> * \<bar>y2 - x2\<bar> \<le> \<bar>x1\<bar> * (e2 * \<bar>x2\<bar>)" using b by (simp add: mult_left_mono)
    have 3: "\<bar>y1 - x1\<bar> * \<bar>y2 - x2\<bar> \<le> e1 * \<bar>x1\<bar> * (e2 * \<bar>x2\<bar>)"
      using a b by (intro mult_mono) (simp_all add: assms)
    from 1 2 3 show ?thesis by linarith
  qed
  also have "\<dots> = (e1 + e2 + e1 * e2) * \<bar>x1 * x2\<bar>" by (simp add: abs_mult algebra_simps)
  finally show ?thesis by (simp add: approx_def)
qed

lemma approx_trans:
  assumes "approx e1 z y" and "approx e2 y x" and "0 \<le> e1"
  shows "approx (e1 + e2 + e1 * e2) z x"
proof -
  have a: "\<bar>z - y\<bar> \<le> e1 * \<bar>y\<bar>" and b: "\<bar>y - x\<bar> \<le> e2 * \<bar>x\<bar>"
    using assms by (simp_all add: approx_def)
  have "\<bar>y\<bar> \<le> \<bar>x\<bar> + e2 * \<bar>x\<bar>" using b by linarith
  then have "e1 * \<bar>y\<bar> \<le> e1 * (\<bar>x\<bar> + e2 * \<bar>x\<bar>)" using assms(3) by (rule mult_left_mono)
  then have "\<bar>z - x\<bar> \<le> e1 * (\<bar>x\<bar> + e2 * \<bar>x\<bar>) + e2 * \<bar>x\<bar>" using a b by linarith
  also have "\<dots> = (e1 + e2 + e1 * e2) * \<bar>x\<bar>" by (simp add: algebra_simps)
  finally show ?thesis by (simp add: approx_def)
qed

lemma approx_inverse:
  assumes "approx e y x" and "0 \<le> e" and "e \<le> 1 / 2" and "x \<noteq> 0"
  shows "approx (2 * e) (1 / y) (1 / x)" and "y \<noteq> 0"
proof -
  have a: "\<bar>y - x\<bar> \<le> e * \<bar>x\<bar>" using assms(1) by (simp add: approx_def)
  have xp: "0 < \<bar>x\<bar>" using assms(4) by simp
  have "e * \<bar>x\<bar> \<le> 1 / 2 * \<bar>x\<bar>" using assms(3) by (intro mult_right_mono) simp_all
  then have yl: "\<bar>x\<bar> / 2 \<le> \<bar>y\<bar>" using a by linarith
  then have yp: "0 < \<bar>y\<bar>" using xp by linarith
  then show y0: "y \<noteq> 0" by simp
  have "1 / y - 1 / x = (x - y) / (x * y)" using assms(4) y0 by (simp add: field_simps)
  then have "\<bar>1 / y - 1 / x\<bar> = \<bar>y - x\<bar> / (\<bar>x\<bar> * \<bar>y\<bar>)"
    by (simp add: abs_mult abs_minus_commute)
  also have "\<dots> \<le> e * \<bar>x\<bar> / (\<bar>x\<bar> * \<bar>y\<bar>)"
    using a xp yp by (intro divide_right_mono) simp_all
  also have "\<dots> = e / \<bar>y\<bar>" using xp by simp
  also have "\<dots> \<le> e / (\<bar>x\<bar> / 2)" using yl xp assms(2) by (intro divide_left_mono) simp_all
  also have "\<dots> = 2 * e * \<bar>1 / x\<bar>" by (simp add: abs_divide)
  finally show "approx (2 * e) (1 / y) (1 / x)" by (simp add: approx_def)
qed

lemma approx_divide:
  assumes "approx e1 y1 x1" and "approx e2 y2 x2" and "0 \<le> e1" and "0 \<le> e2"
    and "e2 \<le> 1 / 2" and "x2 \<noteq> 0"
  shows "approx (e1 + 2 * e2 + e1 * (2 * e2)) (y1 / y2) (x1 / x2)"
  using approx_mult[OF assms(1) approx_inverse(1)[OF assms(2,4,5,6)] assms(3)] assms(4)
  by simp

lemma one_plus_power_le:
  fixes x :: rat
  assumes "0 \<le> x" and "of_nat n * x \<le> 1 / 2"
  shows "(1 + x) ^ n \<le> 1 + 2 * of_nat n * x"
  using assms(2)
proof (induction n)
  case 0
  then show ?case by simp
next
  case (Suc n)
  have nx: "of_nat n * x \<le> 1 / 2" using Suc.prems assms(1) by (simp add: algebra_simps)
  have "(1 + x) ^ Suc n = (1 + x) ^ n * (1 + x)" by simp
  also have "\<dots> \<le> (1 + 2 * of_nat n * x) * (1 + x)"
    using Suc.IH[OF nx] assms(1) by (intro mult_right_mono) simp_all
  also have "\<dots> = 1 + 2 * of_nat n * x + x + 2 * (of_nat n * x) * x" by (simp add: algebra_simps)
  also have "\<dots> \<le> 1 + 2 * of_nat n * x + x + 2 * (1 / 2) * x"
    using nx assms(1) by (intro add_left_mono mult_right_mono mult_left_mono) simp_all
  also have "\<dots> = 1 + 2 * of_nat (Suc n) * x" by (simp add: algebra_simps)
  finally show ?case .
qed

lemma abs_power_minus_one_le:
  fixes t :: rat
  assumes "\<bar>t\<bar> \<le> e"
  shows "\<bar>(1 + t) ^ n - 1\<bar> \<le> (1 + e) ^ n - 1"
proof (induction n)
  case 0
  then show ?case by simp
next
  case (Suc n)
  have e0: "0 \<le> e" using assms by linarith
  have "(1 + t) ^ Suc n - 1 = ((1 + t) ^ n - 1) * (1 + t) + t" by (simp add: algebra_simps)
  then have "\<bar>(1 + t) ^ Suc n - 1\<bar> \<le> \<bar>(1 + t) ^ n - 1\<bar> * \<bar>1 + t\<bar> + \<bar>t\<bar>"
    by (simp add: abs_mult[symmetric]) 
  also have "\<dots> \<le> ((1 + e) ^ n - 1) * (1 + e) + e"
  proof -
    have "\<bar>1 + t\<bar> \<le> 1 + e" using assms by linarith
    then have "\<bar>(1 + t) ^ n - 1\<bar> * \<bar>1 + t\<bar> \<le> ((1 + e) ^ n - 1) * (1 + e)"
      using Suc.IH by (intro mult_mono) simp_all
    then show ?thesis using assms by linarith
  qed
  also have "\<dots> = (1 + e) ^ Suc n - 1" by (simp add: algebra_simps)
  finally show ?case .
qed

lemma approx_power:
  assumes "approx e y x" and "0 \<le> e" and "of_nat n * e \<le> 1 / 2"
  shows "approx (2 * of_nat n * e) (y ^ n) (x ^ n)"
proof (cases "x = 0")
  case True
  then have "y = 0" using assms(1) by (simp add: approx_def)
  then show ?thesis using True assms(2) by (simp add: approx_def)
next
  case False
  define t where "t = (y - x) / x"
  have y: "y = x * (1 + t)" using False by (simp add: t_def field_simps)
  have "\<bar>t\<bar> = \<bar>y - x\<bar> / \<bar>x\<bar>" by (simp add: t_def abs_divide)
  also have "\<dots> \<le> e" using assms(1) False by (simp add: approx_def field_simps)
  finally have t: "\<bar>t\<bar> \<le> e" .
  have "y ^ n = x ^ n * (1 + t) ^ n" unfolding y by (rule power_mult_distrib)
  then have "y ^ n - x ^ n = x ^ n * ((1 + t) ^ n - 1)" by (simp add: right_diff_distrib)
  then have "\<bar>y ^ n - x ^ n\<bar> = \<bar>x ^ n\<bar> * \<bar>(1 + t) ^ n - 1\<bar>" by (simp add: abs_mult)
  also have "\<dots> \<le> \<bar>x ^ n\<bar> * ((1 + e) ^ n - 1)"
    using abs_power_minus_one_le[OF t, of n] by (intro mult_left_mono) simp_all
  also have "\<dots> \<le> \<bar>x ^ n\<bar> * (2 * of_nat n * e)"
    using one_plus_power_le[OF assms(2,3)] by (intro mult_left_mono) simp_all
  finally show ?thesis by (simp add: approx_def mult.commute)
qed

lemma Bernoulli_rat:
  fixes x :: rat
  assumes "0 \<le> x"
  shows "1 + of_nat n * x \<le> (1 + x) ^ n"
proof (induction n)
  case 0
  then show ?case by simp
next
  case (Suc n)
  have "1 + of_nat (Suc n) * x \<le> (1 + of_nat n * x) * (1 + x)"
    using assms by (simp add: algebra_simps)
  also have "\<dots> \<le> (1 + x) ^ n * (1 + x)" using Suc.IH assms by (intro mult_right_mono) simp_all
  finally show ?case by (simp add: mult.commute)
qed

lemma approx_bounds:
  assumes "approx e y x" and "0 \<le> x"
  shows "x - e * x \<le> y" and "y \<le> x + e * x"
  using assms by (simp_all add: approx_def abs_le_iff)

lemma approx_abs:
  assumes "approx e y x" and "0 \<le> x" and "x \<le> b" and "0 \<le> e"
  shows "\<bar>y - x\<bar> \<le> e * b"
proof -
  have "\<bar>y - x\<bar> \<le> e * x" using assms(1,2) by (simp add: approx_def)
  also have "\<dots> \<le> e * b" using assms(3,4) by (rule mult_left_mono)
  finally show ?thesis .
qed

lemma abs_diff_bounds:
  fixes x y d :: rat
  assumes "\<bar>y - x\<bar> \<le> d"
  shows "x - d \<le> y" and "y \<le> x + d"
  using assms by linarith+

text \<open>The evaluation of \<open>calculateEMI\<close> at two inputs, one operation after the other; each
  rounding is certified by the exponent and the significand of its result.\<close>

lemma calculateEMI_100000_12_12:
  "calculateEMI (Fin 100000) (Fin 12) 12 = Fin (4884514435697213 / 549755813888)"
proof -
  have s1: "num_mul (Fin 12) (Fin 100) = Fin (1200)"
    using toNumber_eval[of "12 * 100" "10" 5277655813324800] by (simp add: pow2_def)
  have s2: "num_div (Fin 12) (Fin 1200) = Fin (5764607523034235 / 576460752303423488)"
    using toNumber_eval[of "12 / 1200" "- 7" 5764607523034235] by (simp add: pow2_def)
  have s3: "num_add (Fin 1) (Fin (5764607523034235 / 576460752303423488)) = Fin (4548635623644201 / 4503599627370496)"
    using toNumber_eval[of "1 + 5764607523034235 / 576460752303423488" "0" 4548635623644201] by (simp add: pow2_def)
  have s4: "Math_pow (Fin (4548635623644201 / 4503599627370496)) 12 = Fin (5074768785814087 / 4503599627370496)"
    using toNumber_eval[of "(4548635623644201 / 4503599627370496) ^ 12" "0" 5074768785814087] by (simp add: pow2_def Math_pow_Fin power_divide)
  have s5: "num_mul (Fin 100000) (Fin (5764607523034235 / 576460752303423488)) = Fin (1000)"
    using toNumber_eval[of "100000 * (5764607523034235 / 576460752303423488)" "9" 8796093022208000] by (simp add: pow2_def)
  have s6: "num_mul (Fin (1000)) (Fin (5074768785814087 / 4503599627370496)) = Fin (4955828892396569 / 4398046511104)"
    using toNumber_eval[of "(1000) * (5074768785814087 / 4503599627370496)" "10" 4955828892396569] by (simp add: pow2_def)
  have s7: "num_sub (Fin (5074768785814087 / 4503599627370496)) (Fin 1) = Fin (571169158443591 / 4503599627370496)"
    using toNumber_eval[of "(5074768785814087 / 4503599627370496) + - 1" "- 3" 4569353267548728] by (simp add: pow2_def num_sub_def)
  have s8: "num_div (Fin (4955828892396569 / 4398046511104)) (Fin (571169158443591 / 4503599627370496)) = Fin (152641056665077 / 17179869184)"
    using toNumber_eval[of "(4955828892396569 / 4398046511104) / (571169158443591 / 4503599627370496)" "13" 4884513813282464] by (simp add: pow2_def)
  have s9: "num_mul (Fin (152641056665077 / 17179869184)) (Fin 100) = Fin (3816026416626925 / 4294967296)"
    using toNumber_eval[of "(152641056665077 / 17179869184) * 100" "19" 7632052833253850] by (simp add: pow2_def)
  have s10: "num_round (Fin (3816026416626925 / 4294967296)) = Fin 888488" by (simp add: Math_round_def floor_eq_iff)
  have s11: "num_div (Fin 888488) (Fin 100) = Fin (4884514435697213 / 549755813888)"
    using toNumber_eval[of "888488 / 100" "13" 4884514435697213] by (simp add: pow2_def)
  show ?thesis
    unfolding calculateEMI_def Let_def
    by (simp only: s1 s2 s3 s4 s5 s6 s7 s8 s9 s10 s11)
qed

lemma calculateEMI_1010_9_1:
  "calculateEMI (Fin 1010) (Fin 9) 1 = Fin (8950640376608195 / 8796093022208)"
proof -
  have s1: "num_mul (Fin 12) (Fin 100) = Fin (1200)"
    using toNumber_eval[of "12 * 100" "10" 5277655813324800] by (simp add: pow2_def)
  have s2: "num_div (Fin 9) (Fin 1200) = Fin (1080863910568919 / 144115188075855872)"
    using toNumber_eval[of "9 / 1200" "- 8" 8646911284551352] by (simp add: pow2_def)
  have s3: "num_add (Fin 1) (Fin (1080863910568919 / 144115188075855872)) = Fin (4537376624575775 / 4503599627370496)"
    using toNumber_eval[of "1 + 1080863910568919 / 144115188075855872" "0" 4537376624575775] by (simp add: pow2_def)
  have s4: "Math_pow (Fin (4537376624575775 / 4503599627370496)) 1 = Fin (4537376624575775 / 4503599627370496)"
    using toNumber_eval[of "(4537376624575775 / 4503599627370496) ^ 1" "0" 4537376624575775] by (simp add: pow2_def Math_pow_Fin power_divide)
  have s5: "num_mul (Fin 1010) (Fin (1080863910568919 / 144115188075855872)) = Fin (2132172948583219 / 281474976710656)"
    using toNumber_eval[of "1010 * (1080863910568919 / 144115188075855872)" "2" 8528691794332876] by (simp add: pow2_def)
  have s6: "num_mul (Fin (2132172948583219 / 281474976710656)) (Fin (4537376624575775 / 4503599627370496)) = Fin (8592656982790373 / 1125899906842624)"
    using toNumber_eval[of "(2132172948583219 / 281474976710656) * (4537376624575775 / 4503599627370496)" "2" 8592656982790373] by (simp add: pow2_def)
  have s7: "num_sub (Fin (4537376624575775 / 4503599627370496)) (Fin 1) = Fin (33776997205279 / 4503599627370496)"
    using toNumber_eval[of "(4537376624575775 / 4503599627370496) + - 1" "- 8" 8646911284551424] by (simp add: pow2_def num_sub_def)
  have s8: "num_div (Fin (8592656982790373 / 1125899906842624)) (Fin (33776997205279 / 4503599627370496)) = Fin (8950684357073231 / 8796093022208)"
    using toNumber_eval[of "(8592656982790373 / 1125899906842624) / (33776997205279 / 4503599627370496)" "9" 8950684357073231] by (simp add: pow2_def)
  have s9: "num_mul (Fin (8950684357073231 / 8796093022208)) (Fin 100) = Fin (3496361076981731 / 34359738368)"
    using toNumber_eval[of "(8950684357073231 / 8796093022208) * 100" "16" 6992722153963462] by (simp add: pow2_def)
  have s10: "num_round (Fin (3496361076981731 / 34359738368)) = Fin 101757" by (simp add: Math_round_def floor_eq_iff)
  have s11: "num_div (Fin 101757) (Fin 100) = Fin (8950640376608195 / 8796093022208)"
    using toNumber_eval[of "101757 / 100" "9" 8950640376608195] by (simp add: pow2_def)
  show ?thesis
    unfolding calculateEMI_def Let_def
    by (simp only: s1 s2 s3 s4 s5 s6 s7 s8 s9 s10 s11)
qed

text \<open>A rate so small that \<open>1 + r\<close> rounds to 1: the denominator is 0 and the quotient is
  infinite.\<close>

lemma calculateEMI_tiny_rate:
  "calculateEMI (Fin 100000) (Fin (1 / 2 ^ 70)) 12 = PosInf"
proof -
  have s1: "num_mul (Fin 12) (Fin 100) = Fin 1200"
    using toNumber_eval[of "12 * 100" "10" 5277655813324800] by (simp add: pow2_def)
  have s2: "num_div (Fin (1 / 2 ^ 70)) (Fin 1200) = Fin (7686143364045647 / 10889035741470030830827987437816582766592)"
    using toNumber_eval[of "1 / 2 ^ 70 / 1200" "- 81" 7686143364045647] by (simp add: pow2_def)
  have s3: "num_add (Fin 1) (Fin (7686143364045647 / 10889035741470030830827987437816582766592)) = Fin 1"
    using toNumber_eval[of "1 + 7686143364045647 / 10889035741470030830827987437816582766592" "0" 4503599627370496] by (simp add: pow2_def)
  have s4: "Math_pow (Fin 1) 12 = Fin 1"
    using toNumber_eval[of "1" "0" 4503599627370496] by (simp add: pow2_def Math_pow_Fin)
  have s5: "num_mul (Fin 100000) (Fin (7686143364045647 / 10889035741470030830827987437816582766592)) = Fin (2932031007402667 / 41538374868278621028243970633760768)"
    using toNumber_eval[of "100000 * (7686143364045647 / 10889035741470030830827987437816582766592)" "- 64" 5864062014805334] by (simp add: pow2_def)
  have s6: "num_mul (Fin (2932031007402667 / 41538374868278621028243970633760768)) (Fin 1) = Fin (2932031007402667 / 41538374868278621028243970633760768)"
    using toNumber_eval[of "2932031007402667 / 41538374868278621028243970633760768" "- 64" 5864062014805334] by (simp add: pow2_def)
  have s7: "num_sub (Fin 1) (Fin 1) = Fin 0" by (simp add: num_sub_def)
  have s8: "num_div (Fin (2932031007402667 / 41538374868278621028243970633760768)) (Fin 0) = PosInf" by simp
  have s9: "num_mul PosInf (Fin 100) = PosInf" by simp
  have s10: "num_round PosInf = PosInf" by simp
  have s11: "num_div PosInf (Fin 100) = PosInf" by simp
  show ?thesis
    unfolding calculateEMI_def Let_def
    by (simp only: s1 s2 s3 s4 s5 s6 s7 s8 s9 s10 s11)
qed

lemma nearestDouble_888488: "nearestDouble (222122 / 25) = 4884514435697213 / 549755813888"
  using nearestDouble_eval[of "222122 / 25" 13 4884514435697213] by (simp add: pow2_def)

lemma nearestDouble_101757: "nearestDouble (101757 / 100) = 8950640376608195 / 8796093022208"
  using nearestDouble_eval[of "101757 / 100" 9 8950640376608195] by (simp add: pow2_def)

lemma nearestDouble_101758: "nearestDouble (50879 / 50) = 8950728337538417 / 8796093022208"
  using nearestDouble_eval[of "50879 / 50" 9 8950728337538417] by (simp add: pow2_def)

text \<open>The calendar at a few dates: the epoch, a leap day, and the roll-over of a day that
  the target month does not have, as \<^verbatim>\<open>setMonth\<close> and \<^verbatim>\<open>setDate\<close> do it.\<close>

lemma calendar_examples:
  "civil_from_days 0 = (1970, 0, 1)"
  "ymd 2024 1 17 = 1705449600000"
  "civil_from_days (Day (ymd 2024 2 29)) = (2024, 1, 29)"
  "civil_from_days (Day (ymd 2023 12 31)) = (2023, 11, 31)"
  "setMonth (ymd 2023 1 31) 1 = ymd 2023 3 3"
  "setMonth (ymd 2024 1 31) 1 = ymd 2024 3 2"
  "setDate (ymd 2023 4 15) 31 = ymd 2023 5 1"
  "setMonth (ymd 2023 12 15) 12 = ymd 2024 1 15"
  by code_simp+

text \<open>A loan disbursed in November and never paid gets, on 2024-03-01, the due date three
  months after its disbursement, 2024-03-15, since the month added stays within the year of
  the disbursement.\<close>

lemma calculateNextDueDate_november_example:
  "calculateNextDueDate (ymd 2024 3 1)
     (exLoan\<lparr>disbursementDate := Some (ymd 2023 11 15)\<rparr>) = Some (ymd 2024 3 15)"
  by code_simp

lemma days_floor:
  "\<lfloor>(of_int a - of_int b :: rat) / 86400000\<rfloor> = (a - b) div 86400000"
proof -
  have "(of_int a - of_int b :: rat) / 86400000 = of_int (a - b) / of_int 86400000" by simp
  then show ?thesis by (simp only: floor_divide_of_int_eq)
qed

lemma find_map_id:
  assumes "\<And>l. loan_id (f l) = loan_id l"
  shows "find (\<lambda>l. loan_id l = j) (map (\<lambda>l. if loan_id l = i then f l else l) ls) =
         (if j = i then map_option f (find (\<lambda>l. loan_id l = j) ls)
          else find (\<lambda>l. loan_id l = j) ls)"
  using assms by (induction ls) auto

lemma find_map_preserve:
  assumes "\<And>l. loan_id (g l) = loan_id l"
  shows "find (\<lambda>l. loan_id l = i) (map g xs) = map_option g (find (\<lambda>l. loan_id l = i) xs)"
  using assms by (induction xs) auto

lemma findLoan_writeLoan:
  assumes "\<And>l. loan_id (f l) = loan_id l"
  shows "findLoan j (writeLoan i f db) =
         (if j = i then map_option f (findLoan j db) else findLoan j db)"
  unfolding findLoan_def writeLoan_def using find_map_id[OF assms] by simp

lemma findLoan_createPayment [simp]: "findLoan j (createPayment p db) = findLoan j db"
  by (simp add: findLoan_def createPayment_def)

lemma payments_writeLoan [simp]: "payments (writeLoan i f db) = payments db"
  by (simp add: writeLoan_def)

lemma customers_writeLoan [simp]: "customers (writeLoan i f db) = customers db"
  by (simp add: writeLoan_def)

lemma loan_id_overdueData [simp]: "loan_id (overdueData now s row) = loan_id row"
  by (simp add: overdueData_def Let_def)

lemma overdueData_frame:
  "overdueData now s row
     \<lparr>isOverdue := isOverdue row, daysOverdue := daysOverdue row,
      overdueAmount := overdueAmount row, penaltyAmount := penaltyAmount row,
      nextDueDate := nextDueDate row, overdueSince := overdueSince row\<rparr> = row"
  by (simp add: overdueData_def Let_def)

lemma overdueData_balance [simp]:
  "outstandingBalance (overdueData now s row) = outstandingBalance row"
  "totalAmountPaid (overdueData now s row) = totalAmountPaid row"
  "lastPaymentDate (overdueData now s row) = lastPaymentDate row"
  "status (overdueData now s row) = status row"
  by (simp_all add: overdueData_def Let_def)

lemma overdueData_fields:
  "isOverdue (overdueData now s row) = res_isOverdue (calculateOverdueStatus now s)"
  "daysOverdue (overdueData now s row) = res_daysOverdue (calculateOverdueStatus now s)"
  "overdueAmount (overdueData now s row) = res_overdueAmount (calculateOverdueStatus now s)"
  "penaltyAmount (overdueData now s row) = res_penaltyAmount (calculateOverdueStatus now s)"
  "nextDueDate (overdueData now s row) = res_nextDueDate (calculateOverdueStatus now s)"
  "overdueSince (overdueData now s row) =
     (if res_isOverdue (calculateOverdueStatus now s) \<and> \<not> isOverdue s then Some now
      else overdueSince s)"
  by (simp_all add: overdueData_def Let_def)

lemma calculateOverdueStatus_nonActive:
  "status loan \<noteq> ACTIVE \<Longrightarrow> calculateOverdueStatus now loan = notOverdue None"
  by (simp add: calculateOverdueStatus_def)

text \<open>\<open>checkAndMarkDefaulted\<close> on a loan that is persisted overdue by the threshold or more:
  the row becomes DEFAULTED and every other column, the overdue snapshot too, stays.\<close>

lemma checkAndMarkDefaulted_status_only:
  assumes "findLoan i db = Some loan" and "isOverdue loan" and "threshold \<le> daysOverdue loan"
  shows "checkAndMarkDefaulted i threshold db
           = Inr (True, writeLoan i (\<lambda>row. row\<lparr>status := DEFAULTED\<rparr>) db)"
    and "findLoan i (writeLoan i (\<lambda>row. row\<lparr>status := DEFAULTED\<rparr>) db)
           = Some (loan\<lparr>status := DEFAULTED\<rparr>)"
  using assms by (simp_all add: checkAndMarkDefaulted_def updateLoan_def findLoan_writeLoan)

lemma updateLoanOverdueStatus_found:
  assumes "findLoan i db = Some loan"
  shows "updateLoanOverdueStatus now i db =
           Inr (overdueData now loan loan, writeLoan i (overdueData now loan) db)"
  using assms by (simp add: updateLoanOverdueStatus_def updateLoan_def)

lemma loan_id_balanceData [simp]: "loan_id (balanceData now a s row) = loan_id row"
  by (simp add: balanceData_def Let_def)

lemma paymentTransaction_found:
  assumes "findLoan (req_loanId req) db = Some loan"
    and "req_paymentType req \<in> {EMI_PAYMENT, PARTIAL_PAYMENT, LOAN_CLOSURE}"
  shows "\<exists>payment. pay_status payment = PAY_COMPLETED \<and> pay_amount payment = req_amount req
      \<and> pay_loanId payment = req_loanId req \<and> paymentType payment = req_paymentType req
      \<and> paymentTransaction now req db =
      (payment,
       writeLoan (req_loanId req) (balanceData now (req_amount req) loan)
         (createPayment payment db))"
  using assms by (auto simp add: paymentTransaction_def Let_def)

lemma paymentTransaction_other:
  assumes "req_paymentType req \<notin> {EMI_PAYMENT, PARTIAL_PAYMENT, LOAN_CLOSURE}"
  shows "\<exists>payment. pay_status payment = PAY_COMPLETED \<and> pay_amount payment = req_amount req
      \<and> pay_loanId payment = req_loanId req \<and> paymentType payment = req_paymentType req
      \<and> paymentTransaction now req db = (payment, createPayment payment db)"
  using assms by (auto simp add: paymentTransaction_def Let_def)

lemma recordPayment_found:
  assumes "findLoan (req_loanId req) db = Some loan"
    and "req_paymentType req \<in> {EMI_PAYMENT, PARTIAL_PAYMENT, LOAN_CLOSURE}"
  shows "\<exists>payment db1 paid.
      paymentTransaction now req db = (payment, db1)
      \<and> paid = balanceData now (req_amount req) loan loan
      \<and> findLoan (req_loanId req) db1 = Some paid
      \<and> pay_status payment = PAY_COMPLETED
      \<and> payment \<in> set (payments db1)
      \<and> recordPayment now req db =
          Inr (payment, writeLoan (req_loanId req) (overdueData now paid) db1)"
proof -
  from paymentTransaction_found[OF assms, of now] obtain payment where
    p: "pay_status payment = PAY_COMPLETED"
    and t: "paymentTransaction now req db =
      (payment, writeLoan (req_loanId req) (balanceData now (req_amount req) loan)
         (createPayment payment db))" by blast
  let ?db1 = "writeLoan (req_loanId req) (balanceData now (req_amount req) loan)
         (createPayment payment db)"
  have f: "findLoan (req_loanId req) ?db1 = Some (balanceData now (req_amount req) loan loan)"
    using assms(1) by (simp add: findLoan_writeLoan)
  have m: "payment \<in> set (payments ?db1)" by (simp add: createPayment_def)
  have "recordPayment now req db =
          Inr (payment, writeLoan (req_loanId req)
             (overdueData now (balanceData now (req_amount req) loan loan)) ?db1)"
    using assms(1) t f by (simp add: recordPayment_def updateLoanOverdueStatus_found)
  with p t f m show ?thesis by blast
qed

lemma recordPayment_any_type:
  assumes "findLoan (req_loanId req) db = Some loan"
  shows "\<exists>payment db1 l1.
      paymentTransaction now req db = (payment, db1)
      \<and> findLoan (req_loanId req) db1 = Some l1
      \<and> pay_status payment = PAY_COMPLETED
      \<and> payment \<in> set (payments db1)
      \<and> recordPayment now req db =
          Inr (payment, writeLoan (req_loanId req) (overdueData now l1) db1)"
proof (cases "req_paymentType req \<in> {EMI_PAYMENT, PARTIAL_PAYMENT, LOAN_CLOSURE}")
  case True
  from recordPayment_found[OF assms True, of now] show ?thesis by blast
next
  case False
  from paymentTransaction_other[OF False, of now db] obtain payment where
    p: "pay_status payment = PAY_COMPLETED"
    and t: "paymentTransaction now req db = (payment, createPayment payment db)" by blast
  have f: "findLoan (req_loanId req) (createPayment payment db) = Some loan"
    using assms by simp
  have m: "payment \<in> set (payments (createPayment payment db))" by (simp add: createPayment_def)
  have "recordPayment now req db =
          Inr (payment, writeLoan (req_loanId req) (overdueData now loan) (createPayment payment db))"
    using assms t f by (simp add: recordPayment_def updateLoanOverdueStatus_found)
  with p t f m show ?thesis by blast
qed

subsection \<open>The sweep\<close>

text \<open>With unique loan ids, a row is determined by its id.\<close>

lemma same_id_same_row:
  assumes "distinct (map loan_id xs)" "x \<in> set xs" "y \<in> set xs" "loan_id x = loan_id y"
  shows "x = y"
  using assms by (meson distinct_map inj_on_def)

lemma find_by_id:
  assumes "distinct (map loan_id xs)" "l \<in> set xs"
  shows "find (\<lambda>x. loan_id x = loan_id l) xs = Some l"
  using assms by (induction xs) (auto simp: image_iff)

lemma findLoan_member:
  assumes "distinct (map loan_id (loans db))" "l \<in> set (loans db)"
  shows "findLoan (loan_id l) db = Some l"
  using find_by_id[OF assms] by (simp add: findLoan_def)

lemma map_loan_id_writeLoan:
  assumes "\<And>l. loan_id (f l) = loan_id l"
  shows "map loan_id (loans (writeLoan i f db)) = map loan_id (loans db)"
  using assms by (simp add: writeLoan_def comp_def)

lemma findLoan_refreshed:
  "findLoan i (refreshed now ls db) =
     map_option (\<lambda>l. if l \<in> set ls then overdueData now l l else l) (findLoan i db)"
  unfolding findLoan_def refreshed_def
  by (simp add: find_map_preserve)

lemma refreshed_step:
  assumes d: "distinct (map loan_id (loans db))"
    and l: "l \<in> set (loans db)"
    and sub: "set ls \<subseteq> set (loans db)"
    and dl: "distinct (map loan_id (l # ls))"
  shows "refreshed now ls (writeLoan (loan_id l) (overdueData now l) db) = refreshed now (l # ls) db"
proof -
  have ids: "\<And>y. y \<in> set ls \<Longrightarrow> loan_id y \<noteq> loan_id l" using dl by (auto simp: image_iff)
  have "map (\<lambda>x. if x \<in> set ls then overdueData now x x else x)
          (map (\<lambda>x. if loan_id x = loan_id l then overdueData now l x else x) (loans db))
        = map (\<lambda>x. if x \<in> set (l # ls) then overdueData now x x else x) (loans db)"
  proof (simp only: map_map comp_def, rule map_cong[OF refl])
    fix x assume x: "x \<in> set (loans db)"
    show "(if (if loan_id x = loan_id l then overdueData now l x else x) \<in> set ls
           then overdueData now (if loan_id x = loan_id l then overdueData now l x else x)
                  (if loan_id x = loan_id l then overdueData now l x else x)
           else (if loan_id x = loan_id l then overdueData now l x else x))
          = (if x \<in> set (l # ls) then overdueData now x x else x)"
    proof (cases "loan_id x = loan_id l")
      case True
      then have "x = l" using same_id_same_row[OF d x l] by simp
      moreover have "overdueData now l l \<notin> set ls" using ids by force
      ultimately show ?thesis by simp
    next
      case False
      then have "x \<noteq> l" by auto
      with False show ?thesis by simp
    qed
  qed
  then show ?thesis by (simp add: refreshed_def writeLoan_def)
qed

text \<open>The loop over a prefix of loans whose writes succeed: by induction on the prefix, with
  the database and both counters generalised.\<close>

lemma sweepLoop_prefix:
  assumes "distinct (map loan_id (loans db))"
    and "set ls \<subseteq> set (loans db)"
    and "distinct (map loan_id ls)"
    and "\<forall>l\<in>set ls. \<not> fails (loan_id l)"
  shows "sweepLoop fails now (ls @ rest) n c db =
         sweepLoop fails now rest
           (n + length (filter (\<lambda>l. \<not> isOverdue l \<and> res_isOverdue (calculateOverdueStatus now l)) ls))
           (c + length (filter (\<lambda>l. isOverdue l \<and> \<not> res_isOverdue (calculateOverdueStatus now l)) ls))
           (refreshed now ls db)"
  using assms
proof (induction ls arbitrary: db n c)
  case Nil
  then show ?case by (simp add: refreshed_def)
next
  case (Cons l ls)
  let ?db1 = "writeLoan (loan_id l) (overdueData now l) db"
  have lin: "l \<in> set (loans db)" using Cons.prems(2) by simp
  have f: "findLoan (loan_id l) db = Some l" using findLoan_member[OF Cons.prems(1) lin] .
  have nf: "\<not> fails (loan_id l)" using Cons.prems(4) by simp
  have d1: "distinct (map loan_id (loans ?db1))"
    using Cons.prems(1) by (simp add: map_loan_id_writeLoan)
  have ids: "\<And>y. y \<in> set ls \<Longrightarrow> loan_id y \<noteq> loan_id l" using Cons.prems(3) by (auto simp: image_iff)
  have sub1: "set ls \<subseteq> set (loans ?db1)"
  proof
    fix y assume y: "y \<in> set ls"
    then have "y \<in> set (loans db)" using Cons.prems(2) by auto
    moreover have "loan_id y \<noteq> loan_id l" using ids[OF y] .
    ultimately show "y \<in> set (loans ?db1)" by (force simp: writeLoan_def)
  qed
  have dl: "distinct (map loan_id ls)" using Cons.prems(3) by simp
  have nfl: "\<forall>l\<in>set ls. \<not> fails (loan_id l)" using Cons.prems(4) by simp
  have sub: "set ls \<subseteq> set (loans db)" using Cons.prems(2) by simp
  have r: "refreshed now ls ?db1 = refreshed now (l # ls) db"
    using refreshed_step[OF Cons.prems(1) lin sub Cons.prems(3)] .
  show ?case
    using f nf Cons.IH[OF d1 sub1 dl nfl, of _ _] r
    by (simp add: updateLoan_def Let_def)
qed

lemma sweep_all_ok:
  assumes d: "distinct (map loan_id (loans db))"
    and nf: "\<forall>l\<in>set (findActiveLoans db). \<not> fails (loan_id l)"
  shows "updateAllOverdueLoans fails now db =
           (refreshed now (findActiveLoans db) db,
            Inr \<lparr>totalProcessed = length (findActiveLoans db),
                 newOverdueCount = length (filter (\<lambda>l. \<not> isOverdue l \<and>
                     res_isOverdue (calculateOverdueStatus now l)) (findActiveLoans db)),
                 clearedOverdueCount = length (filter (\<lambda>l. isOverdue l \<and>
                     \<not> res_isOverdue (calculateOverdueStatus now l)) (findActiveLoans db))\<rparr>)"
proof -
  have sub: "set (findActiveLoans db) \<subseteq> set (loans db)" by (auto simp: findActiveLoans_def)
  have dl: "distinct (map loan_id (findActiveLoans db))"
    unfolding findActiveLoans_def using d by (rule distinct_map_filter)
  show ?thesis
    using sweepLoop_prefix[OF d sub dl nf, of now "[]" 0 0]
    by (simp add: updateAllOverdueLoans_def Let_def)
qed

lemma sweep_abort:
  assumes d: "distinct (map loan_id (loans db))"
    and split: "findActiveLoans db = pre @ lf # post"
    and nf: "\<forall>l\<in>set pre. \<not> fails (loan_id l)"
    and f: "fails (loan_id lf)"
  shows "updateAllOverdueLoans fails now db = (refreshed now pre db, Inl WriteFailed)"
proof -
  have sub: "set pre \<subseteq> set (loans db)"
    using split by (metis Un_iff filter_is_subset findActiveLoans_def set_append subsetI subset_iff)
  have "distinct (map loan_id (findActiveLoans db))"
    unfolding findActiveLoans_def using d by (rule distinct_map_filter)
  then have dl: "distinct (map loan_id pre)" using split by simp
  show ?thesis
    using sweepLoop_prefix[OF d sub dl nf, of now "lf # post" 0 0] f split
    by (simp add: updateAllOverdueLoans_def Let_def)
qed

lemma list_all2_map_self:
  assumes "\<And>x. x \<in> set xs \<Longrightarrow> P x (g x)"
  shows "list_all2 P xs (map g xs)"
  using assms by (simp add: list_all2_map2 list_all2_same)

section \<open>Loan terms\<close>

text \<open>
  C8, as amended. \<open>calculateEMI\<close> evaluates \<open>P r (1 + r) ^ n / ((1 + r) ^ n - 1)\<close>, with
  \<open>r = rate / 1200\<close>, in double arithmetic and rounds the hundredfold of that double to a
  whole number. For every input that the router accepts (a principal of at least 1000, a
  rate from 0.1 to 50 percent, a tenure from 1 to 60 months) with a principal of at most
  \<open>10\<^sup>1\<^sup>2\<close>, the result is finite: it is the double nearest to a whole number \<open>k\<close> of
  hundredths, and \<open>k / 100\<close> differs from the exact value of the formula by at most half a
  hundredth plus \<open>P / (4 * 10\<^sup>1\<^sup>0)\<close>, the rounding error of the doubles. So the result is
  the exact value rounded to the nearest hundredth unless that value lies within
  \<open>P / (4 * 10\<^sup>1\<^sup>0)\<close> of a half hundredth, where it may be the neighbouring hundredth.
  For 100000 at 12 percent over 12 months it is the double nearest to 8884.88, which is the
  exact value rounded to two decimal places.
\<close>

theorem calculateEMI_double_accuracy:
  fixes P rate :: rat and n :: nat
  assumes "1000 \<le> P" and "P \<le> 10 ^ 12" and "1 / 10 \<le> rate" and "rate \<le> 50"
    and "1 \<le> n" and "n \<le> 60"
  shows "(\<exists>k::int. calculateEMI (Fin P) (Fin rate) n = Fin (nearestDouble (of_int k / 100))
            \<and> \<bar>of_int k / 100 - emiExact P rate n\<bar> \<le> 1 / 200 + P / (4 * 10 ^ 10))
         \<and> calculateEMI (Fin 100000) (Fin 12) 12 = Fin (nearestDouble (888488 / 100))
         \<and> Math_round (emiExact 100000 12 12 * 100) / 100 = 888488 / 100"
proof -
  define r where "r = rate / 1200"
  define A where "A = (1 + r) ^ n"
  define D where "D = A - 1"
  define E where "E = P * r * A / D"
  have E: "emiExact P rate n = E"
    by (simp add: emiExact_def Let_def r_def A_def D_def E_def)
  have rlo: "1 / 12000 \<le> r" and rhi: "r \<le> 1 / 24" using assms(3,4) by (simp_all add: r_def)
  have rp: "0 < r" using rlo by simp
  have np: "0 < n" using assms(5) by simp
  have n1: "(1::rat) \<le> of_nat n" using assms(5) by simp
  have n60: "of_nat n \<le> (60::rat)" using assms(6) by simp
  have nrD: "of_nat n * r \<le> D" using Bernoulli_rat[of r n] rp by (simp add: D_def A_def)
  have "1 * r \<le> of_nat n * r" using n1 rp by (intro mult_right_mono) simp_all
  then have rD: "r \<le> D" using nrD by simp
  then have Dlo: "1 / 12000 \<le> D" using rlo by simp
  then have Dp: "0 < D" by simp
  have A1: "1 \<le> A" using Dp by (simp add: D_def)
  have "(1 + r) ^ n \<le> 2 ^ n" using rp rhi by (intro power_mono) simp_all
  also have "\<dots> \<le> (2::rat) ^ 60" using assms(6) by (intro power_increasing) simp_all
  finally have Ahi: "A \<le> 2 ^ 60" by (simp add: A_def)

  have e0: "num_mul (Fin 12) (Fin 100) = Fin 1200"
    using toNumber_eval[of 1200 10 5277655813324800] by (simp add: pow2_def)

  define rh where "rh = nearestDouble r"
  have w1: "1 / 10 ^ 30 \<le> r" "r \<le> 10 ^ 30" using rlo rhi by simp_all
  note s1 = toNumber_window[OF w1, folded rh_def]
  have e1: "num_div (Fin rate) (Fin 1200) = Fin rh" using s1(1) by (simp add: r_def)
  have rhb: "1 / 24000 \<le> rh" "rh \<le> 1 / 20"
    using approx_bounds[OF s1(2)] rlo rhi by (simp_all add: eps_def add_divide_distrib diff_divide_distrib) (linarith+)?

  define ah where "ah = nearestDouble (1 + rh)"
  have w2: "1 / 10 ^ 30 \<le> 1 + rh" "1 + rh \<le> 10 ^ 30" using rhb by simp_all
  note s2 = toNumber_window[OF w2, folded ah_def]
  have e2: "num_add (Fin 1) (Fin rh) = Fin ah" using s2(1) by simp
  have a2: "approx (3 * eps) ah (1 + r)"
  proof -
    have 1: "\<bar>ah - (1 + rh)\<bar> \<le> eps * (1 + rh)" using s2(2) rhb by (simp add: approx_def)
    have 2: "\<bar>rh - r\<bar> \<le> eps * r" using s1(2) rp by (simp add: approx_def)
    have "\<bar>ah - (1 + r)\<bar> \<le> \<bar>ah - (1 + rh)\<bar> + \<bar>rh - r\<bar>" by linarith
    also have "\<dots> \<le> eps * (1 + rh) + eps * r" using 1 2 by linarith
    also have "\<dots> \<le> 3 * eps * (1 + r)" using rp rhb by (simp add: eps_def add_divide_distrib diff_divide_distrib) (linarith+)?
    finally have "\<bar>ah - (1 + r)\<bar> \<le> 3 * eps * (1 + r)" .
    then show ?thesis using rp by (simp add: approx_def)
  qed
  have ahb: "1 / 2 \<le> ah" "ah \<le> 2"
    using approx_bounds[OF a2] rp rhi by (simp_all add: eps_def add_divide_distrib diff_divide_distrib) (linarith+)?

  define pw where "pw = nearestDouble (ah ^ n)"
  have w3: "1 / 10 ^ 30 \<le> ah ^ n" "ah ^ n \<le> 10 ^ 30"
  proof -
    have "1 / 10 ^ 30 \<le> (1 / 2 :: rat) ^ 60" by (simp add: power_one_over)
    also have "\<dots> \<le> (1 / 2) ^ n" using assms(6) by (intro power_decreasing) simp_all
    also have "\<dots> \<le> ah ^ n" using ahb by (intro power_mono) simp_all
    finally show "1 / 10 ^ 30 \<le> ah ^ n" .
    have "ah ^ n \<le> 2 ^ n" using ahb by (intro power_mono) simp_all
    also have "\<dots> \<le> (2::rat) ^ 60" using assms(6) by (intro power_increasing) simp_all
    also have "\<dots> \<le> 10 ^ 30" by simp
    finally show "ah ^ n \<le> 10 ^ 30" .
  qed
  note s3 = toNumber_window[OF w3, folded pw_def]
  have e3: "Math_pow (Fin ah) n = Fin pw" using s3(1) np by (simp add: Math_pow_Fin)
  have a3: "approx (8 * of_nat n * eps) pw A"
  proof -
    have "of_nat n * (3 * eps) \<le> 1 / 2" using n60 by (simp add: eps_def)
    from approx_power[OF a2 _ this] have "approx (2 * of_nat n * (3 * eps)) (ah ^ n) A"
      by (simp add: A_def eps_def)
    from approx_trans[OF s3(2) this] have "approx (eps + 2 * of_nat n * (3 * eps) + eps * (2 * of_nat n * (3 * eps))) pw A"
      by (simp add: eps_def)
    then show ?thesis
    proof (rule approx_weaken)
      show "eps + 2 * of_nat n * (3 * eps) + eps * (2 * of_nat n * (3 * eps)) \<le> 8 * of_nat n * eps"
        using n1 by (simp add: eps_def)
    qed
  qed
  have a3': "approx (480 * eps) pw A"
    using a3 by (rule approx_weaken) (use n60 in \<open>simp add: eps_def\<close>)
  have pwb: "1 / 2 \<le> pw" "pw \<le> 2 ^ 61"
    using approx_bounds[OF a3'] A1 Ahi by (simp_all add: eps_def add_divide_distrib diff_divide_distrib) (linarith+)?

  define m1 where "m1 = nearestDouble (P * rh)"
  have Pp: "0 < P" using assms(1) by simp
  have "1000 * (1 / 24000) \<le> P * rh" using assms(1) rhb by (intro mult_mono) simp_all
  moreover have "P * rh \<le> 10 ^ 12 * (1 / 20)" using assms(2) rhb Pp by (intro mult_mono) simp_all
  ultimately have w4: "1 / 10 ^ 30 \<le> P * rh" "P * rh \<le> 10 ^ 30" by simp_all
  note s4 = toNumber_window[OF w4, folded m1_def]
  have e4: "num_mul (Fin P) (Fin rh) = Fin m1" using s4(1) by simp
  have a4: "approx (3 * eps) m1 (P * r)"
  proof -
    have "approx (0 + eps + 0 * eps) (P * rh) (P * r)"
      by (rule approx_mult[OF approx_refl s1(2)]) (simp_all add: eps_def)
    from approx_trans[OF s4(2) this] have "approx (eps + (0 + eps + 0 * eps) + eps * (0 + eps + 0 * eps)) m1 (P * r)"
      by (simp add: eps_def)
    then show ?thesis by (rule approx_weaken) (simp add: eps_def)
  qed
  have Pr: "0 < P * r" using Pp rp by simp
  have Prb: "1 / 12 \<le> P * r" "P * r \<le> 10 ^ 12 / 24" "P * r \<le> P / 24"
  proof -
    have "1000 * (1 / 12000) \<le> P * r" using assms(1) rlo by (intro mult_mono) simp_all
    then show "1 / 12 \<le> P * r" by simp
    have "P * r \<le> 10 ^ 12 * (1 / 24)" using assms(2) rhi Pp rp by (intro mult_mono) simp_all
    then show "P * r \<le> 10 ^ 12 / 24" by simp
    have "P * r \<le> P * (1 / 24)" using rhi Pp by (intro mult_left_mono) simp_all
    then show "P * r \<le> P / 24" by simp
  qed
  have m1b: "1 / 24 \<le> m1" "m1 \<le> 10 ^ 11"
    using approx_bounds[OF a4] Prb(1,2) by (simp_all add: eps_def add_divide_distrib diff_divide_distrib) (linarith+)?

  define nm where "nm = nearestDouble (m1 * pw)"
  have "1 / 24 * (1 / 2) \<le> m1 * pw" using m1b pwb by (intro mult_mono) simp_all
  moreover have "m1 * pw \<le> 10 ^ 11 * 2 ^ 61" using m1b pwb by (intro mult_mono) simp_all
  ultimately have w5: "1 / 10 ^ 30 \<le> m1 * pw" "m1 * pw \<le> 10 ^ 30" by simp_all
  note s5 = toNumber_window[OF w5, folded nm_def]
  have e5: "num_mul (Fin m1) (Fin pw) = Fin nm" using s5(1) by simp
  have a5: "approx (485 * eps) nm (P * r * A)"
  proof -
    have "approx (3 * eps + 480 * eps + 3 * eps * (480 * eps)) (m1 * pw) (P * r * A)"
      by (rule approx_mult[OF a4 a3']) (simp_all add: eps_def)
    from approx_trans[OF s5(2) this]
    have "approx (eps + (3 * eps + 480 * eps + 3 * eps * (480 * eps))
                  + eps * (3 * eps + 480 * eps + 3 * eps * (480 * eps))) nm (P * r * A)"
      by (simp add: eps_def)
    then show ?thesis by (rule approx_weaken) (simp add: eps_def)
  qed

  define dn where "dn = nearestDouble (pw + - 1)"
  have a6': "approx (96480 * eps) (pw + - 1) D"
  proof -
    have "\<bar>pw - A\<bar> \<le> 8 * of_nat n * eps * A" using a3 A1 by (simp add: approx_def)
    moreover have "of_nat n * A \<le> 12060 * D"
    proof -
      have "of_nat n * D \<le> 60 * D" using n60 Dp by (intro mult_right_mono) simp_all
      moreover have "of_nat n * (1 / 12000) \<le> of_nat n * r" using rlo by (intro mult_left_mono) simp_all
      ultimately show ?thesis using nrD by (simp add: D_def algebra_simps)
    qed
    ultimately have "\<bar>pw - A\<bar> \<le> 96480 * eps * D" by (simp add: eps_def)
    then show ?thesis using Dp by (simp add: approx_def D_def)
  qed
  have w6: "1 / 10 ^ 30 \<le> pw + - 1" "pw + - 1 \<le> 10 ^ 30"
    using approx_bounds[OF a6'] Dlo pwb by (simp_all add: eps_def add_divide_distrib diff_divide_distrib) (linarith+)?
  note s6 = toNumber_window[OF w6, folded dn_def]
  have e6: "num_sub (Fin pw) (Fin 1) = Fin dn" using s6(1) by (simp add: num_sub_def)
  have a6: "approx (96482 * eps) dn D"
  proof -
    from approx_trans[OF s6(2) a6']
    have "approx (eps + 96480 * eps + eps * (96480 * eps)) dn D" by (simp add: eps_def)
    then show ?thesis by (rule approx_weaken) (simp add: eps_def)
  qed
  have dn0: "dn \<noteq> 0" using s6(3) by simp

  define q where "q = nm / dn"
  define em where "em = nearestDouble q"
  have a7': "approx (193450 * eps) q E"
  proof -
    have "approx (485 * eps + 2 * (96482 * eps) + 485 * eps * (2 * (96482 * eps))) (nm / dn) (P * r * A / D)"
      using Dp by (intro approx_divide[OF a5 a6]) (simp_all add: eps_def)
    then show ?thesis unfolding E_def q_def by (rule approx_weaken) (simp add: eps_def)
  qed
  have Eb: "1 / 12 \<le> E" "E \<le> 25 / 24 * P" "P / 12000 \<le> E"
  proof -
    have eq: "E = P * r * (A / D)" by (simp add: E_def)
    have "1 \<le> A / D" using Dp by (simp add: D_def)
    then have "P * r * 1 \<le> P * r * (A / D)" using Pr by (intro mult_left_mono) simp_all
    then have "P * r \<le> E" unfolding eq by simp
    then show "1 / 12 \<le> E" using Prb(1) by linarith
    have "P * (1 / 12000) \<le> P * r" using rlo Pp by (intro mult_left_mono) simp_all
    then show "P / 12000 \<le> E" using \<open>P * r \<le> E\<close> by simp
    have "A / D = 1 + 1 / D" using Dp by (simp add: D_def field_simps)
    moreover have "1 / D \<le> 1 / r" using rD rp by (intro divide_left_mono) simp_all
    ultimately have "A / D \<le> 1 + 1 / r" by simp
    then have "P * r * (A / D) \<le> P * r * (1 + 1 / r)" using Pr by (intro mult_left_mono) simp_all
    also have "\<dots> = P * r + P" using rp by (simp add: field_simps)
    finally have "E \<le> P * r + P" unfolding eq .
    then show "E \<le> 25 / 24 * P" using Prb(3) by simp
  qed
  have Ep: "0 \<le> E" using Eb by simp
  have w7: "1 / 10 ^ 30 \<le> q" "q \<le> 10 ^ 30"
    using approx_bounds[OF a7' Ep] Eb assms(2) by (simp_all add: eps_def add_divide_distrib diff_divide_distrib) (linarith+)?
  note s7 = toNumber_window[OF w7, folded em_def]
  have e7: "num_div (Fin nm) (Fin dn) = Fin em" using s7(1) dn0 by (simp add: q_def)
  have a7: "approx (193452 * eps) em E"
  proof -
    from approx_trans[OF s7(2) a7']
    have "approx (eps + 193450 * eps + eps * (193450 * eps)) em E" by (simp add: eps_def)
    then show ?thesis by (rule approx_weaken) (simp add: eps_def)
  qed
  have emE: "\<bar>em - E\<bar> \<le> 193452 * eps * (25 / 24 * P)"
    using approx_abs[OF a7 Ep Eb(2)] by (simp add: eps_def)
  note emE' = abs_diff_bounds[OF emE]
  have emb: "1 / 24 \<le> em" "em \<le> 2 * P"
    using approx_bounds[OF a7 Ep] Eb Pp by (simp_all add: eps_def add_divide_distrib diff_divide_distrib) (linarith+)?

  define t where "t = nearestDouble (em * 100)"
  have w8: "1 / 10 ^ 30 \<le> em * 100" "em * 100 \<le> 10 ^ 30" using emb assms(2) by simp_all
  note s8 = toNumber_window[OF w8, folded t_def]
  have e8: "num_mul (Fin em) (Fin 100) = Fin t" using s8(1) by simp
  have tE: "\<bar>t - em * 100\<bar> \<le> eps * (200 * P)"
  proof -
    have "0 \<le> em * 100" "em * 100 \<le> 200 * P" using emb by simp_all
    from approx_abs[OF s8(2) this] show ?thesis by (simp add: eps_def)
  qed

  define k where "k = \<lfloor>t + 1 / 2\<rfloor>"
  have e9: "num_round (Fin t) = Fin (of_int k)" by (simp add: Math_round_def k_def)
  have kt: "\<bar>of_int k - t\<bar> \<le> 1 / 2"
    using Math_round_near[of t] by (simp add: Math_round_def k_def)
  note kt' = abs_diff_bounds[OF kt]
  note tE' = abs_diff_bounds[OF tE]
  have kE': "E * 100 - (1 / 2 + P / (4 * 10 ^ 8)) \<le> of_int k"
    "of_int k \<le> E * 100 + (1 / 2 + P / (4 * 10 ^ 8))"
    using kt' tE' emE' Pp by (simp_all add: eps_def add_divide_distrib diff_divide_distrib) (linarith+)?
  have w10: "1 / 10 ^ 30 \<le> (of_int k :: rat) / 100" "(of_int k :: rat) / 100 \<le> 10 ^ 30"
    using kE' Eb assms(1,2) by simp_all (linarith+)?
  note s10 = toNumber_window[OF w10]
  have e10: "num_div (Fin (of_int k)) (Fin 100) = Fin (nearestDouble (of_int k / 100))"
    using s10(1) by simp
  have res: "calculateEMI (Fin P) (Fin rate) n = Fin (nearestDouble (of_int k / 100))"
    unfolding calculateEMI_def Let_def
    by (simp only: e0 e1 e2 e3 e4 e5 e6 e7 e8 e9 e10)
  have f1: "(of_int k :: rat) / 100 - E \<le> 1 / 200 + P / (4 * 10 ^ 10)"
    using kE'(2) by simp (linarith+)?
  have f2: "- ((of_int k :: rat) / 100 - E) \<le> 1 / 200 + P / (4 * 10 ^ 10)"
    using kE'(1) by simp (linarith+)?
  have fin: "\<bar>of_int k / 100 - emiExact P rate n\<bar> \<le> 1 / 200 + P / (4 * 10 ^ 10)"
    unfolding E abs_le_iff using f1 f2 by blast
  have ex1: "calculateEMI (Fin 100000) (Fin 12) 12 = Fin (nearestDouble (888488 / 100))"
    by (simp add: calculateEMI_100000_12_12 nearestDouble_888488)
  have ex2: "Math_round (emiExact 100000 12 12 * 100) / 100 = 888488 / 100"
    by (simp add: emiExact_def Let_def Math_round_def floor_eq_iff power_divide)
  show ?thesis using res fin ex1 ex2 by blast
qed

theorem calculateEMI_double_accuracy_witness:
  "(1000::rat) \<le> 100000 \<and> (100000::rat) \<le> 10 ^ 12 \<and> (1 / 10 :: rat) \<le> 12 \<and> (12::rat) \<le> 50
   \<and> (1::nat) \<le> 12 \<and> (12::nat) \<le> 60
   \<and> (\<exists>k::int. calculateEMI (Fin 100000) (Fin 12) 12 = Fin (nearestDouble (of_int k / 100))
          \<and> \<bar>of_int k / 100 - emiExact 100000 12 12\<bar> \<le> 1 / 200 + 100000 / (4 * 10 ^ 10))"
proof -
  have 1: "(1000::rat) \<le> 100000" and 2: "(100000::rat) \<le> 10 ^ 12"
    and 3: "(1 / 10 :: rat) \<le> 12" and 4: "(12::rat) \<le> 50"
    and 5: "(1::nat) \<le> 12" and 6: "(12::nat) \<le> 60" by simp_all
  note 7 = calculateEMI_double_accuracy[OF 1 2 3 4 5 6, THEN conjunct1]
  from 1 2 3 4 5 6 7 show ?thesis by (intro conjI)
qed

text \<open>
  C8 as stated fails. For 1010 at 9 percent over one month the formula gives 1017.575
  exactly, which rounds to 1017.58; the doubles give a value just below 101757.5 for the
  hundredfold, and \<open>calculateEMI\<close> returns the double nearest to 1017.57, which is not the
  double nearest to 1017.58. And not every positive rate will do: for 100000 over 12 months
  at the rate \<open>2\<^sup>-\<^sup>7\<^sup>0\<close>, where the formula gives a value between 8333 and 8334, the sum
  \<open>1 + r\<close> rounds to 1, the denominator is 0 and \<open>calculateEMI\<close> returns infinity.
\<close>

theorem calculateEMI_half_cent_counterexample:
  "emiExact 1010 9 1 = 1017575 / 1000
   \<and> Math_round (emiExact 1010 9 1 * 100) / 100 = 101758 / 100
   \<and> calculateEMI (Fin 1010) (Fin 9) 1 = Fin (nearestDouble (101757 / 100))
   \<and> nearestDouble (101757 / 100) < nearestDouble (101758 / 100)
   \<and> \<bar>nearestDouble (101757 / 100) - 101758 / 100\<bar> > 1 / 200
   \<and> calculateEMI (Fin 100000) (Fin (1 / 2 ^ 70)) 12 = PosInf
   \<and> 8333 < emiExact 100000 (1 / 2 ^ 70) 12 \<and> emiExact 100000 (1 / 2 ^ 70) 12 < 8334"
proof -
  have 1: "emiExact 1010 9 1 = 1017575 / 1000" by (simp add: emiExact_def Let_def)
  have 2: "Math_round (emiExact 1010 9 1 * 100) / 100 = 101758 / 100"
    unfolding 1 by (simp add: Math_round_def floor_eq_iff)
  have 3: "calculateEMI (Fin 1010) (Fin 9) 1 = Fin (nearestDouble (101757 / 100))"
    by (simp only: calculateEMI_1010_9_1 nearestDouble_101757)
  have 4: "nearestDouble (101757 / 100) < nearestDouble (101758 / 100)"
    by (simp add: nearestDouble_101757 nearestDouble_101758)
  have 5: "\<bar>nearestDouble (101757 / 100) - 101758 / 100\<bar> > 1 / 200"
    by (simp add: nearestDouble_101757)
  have 6: "calculateEMI (Fin 100000) (Fin (1 / 2 ^ 70)) 12 = PosInf"
    by (rule calculateEMI_tiny_rate)
  have 7: "8333 < emiExact 100000 (1 / 2 ^ 70) 12 \<and> emiExact 100000 (1 / 2 ^ 70) 12 < 8334"
    by (simp add: emiExact_def Let_def power_divide add_divide_distrib)
  from 1 2 3 4 5 6 7 show ?thesis by blast
qed

text \<open>
  C9. The maturity date is not derived from the disbursement date: \<open>createLoan\<close> sets it to
  the creation time plus the tenure, and \<open>disburseLoan\<close> writes the status and the
  disbursement date only. A loan of 12 months created on 2024-01-10 and disbursed on
  2024-01-17 is persisted with maturity 2025-01-10, while its disbursement date plus 12
  calendar months is 2025-01-17.
\<close>

theorem maturityDate_from_creation_not_disbursement:
  "createLoan (ymd 2024 1 10) ''L9'' exDefaults exLoanRequest exDbEmpty
     = Inr (exLoanCreated, exDbEmpty\<lparr>loans := [exLoanCreated]\<rparr>)
   \<and> disburseLoan (ymd 2024 1 17) ''L9'' (exDbEmpty\<lparr>loans := [exLoanCreated]\<rparr>)
     = Inr (exLoanCreated\<lparr>status := ACTIVE, disbursementDate := Some (ymd 2024 1 17)\<rparr>,
            \<lparr>customers = [''C1''],
             loans = [exLoanCreated\<lparr>status := ACTIVE, disbursementDate := Some (ymd 2024 1 17)\<rparr>],
             payments = [\<lparr>pay_loanId = ''L9'', pay_amount = 100000,
                          paymentType = LOAN_DISBURSEMENT, paymentMethod = ''Bank Transfer'',
                          receiptNumber = None, pay_status = PAY_COMPLETED\<rparr>]\<rparr>)
   \<and> maturityDate (exLoanCreated\<lparr>status := ACTIVE, disbursementDate := Some (ymd 2024 1 17)\<rparr>)
       = Some (ymd 2025 1 10)
   \<and> setMonth (ymd 2024 1 17) (getMonth (ymd 2024 1 17) + 12) = ymd 2025 1 17
   \<and> ymd 2025 1 10 \<noteq> ymd 2025 1 17"
proof -
  have emi: "toDecimal (calculateEMI (Fin 100000) (Fin 12) 12) = Some (888488 / 100)"
    by (simp add: calculateEMI_100000_12_12 Math_round_def floor_eq_iff)
  have ltv: "calculateLTV 100000 125000 = 80" by code_simp
  have mat: "setMonth (ymd 2024 1 10) (getMonth (ymd 2024 1 10) + 12) = ymd 2025 1 10"
    by code_simp
  have 1: "createLoan (ymd 2024 1 10) ''L9'' exDefaults exLoanRequest exDbEmpty
     = Inr (exLoanCreated, exDbEmpty\<lparr>loans := [exLoanCreated]\<rparr>)"
    by (simp add: createLoan_def exLoanRequest_def exDbEmpty_def exLoanCreated_def exDefaults_def
        Let_def emi ltv mat)
  have 2: "disburseLoan (ymd 2024 1 17) ''L9'' (exDbEmpty\<lparr>loans := [exLoanCreated]\<rparr>)
     = Inr (exLoanCreated\<lparr>status := ACTIVE, disbursementDate := Some (ymd 2024 1 17)\<rparr>,
            \<lparr>customers = [''C1''],
             loans = [exLoanCreated\<lparr>status := ACTIVE, disbursementDate := Some (ymd 2024 1 17)\<rparr>],
             payments = [\<lparr>pay_loanId = ''L9'', pay_amount = 100000,
                          paymentType = LOAN_DISBURSEMENT, paymentMethod = ''Bank Transfer'',
                          receiptNumber = None, pay_status = PAY_COMPLETED\<rparr>]\<rparr>)" by code_simp
  have 3: "maturityDate (exLoanCreated\<lparr>status := ACTIVE, disbursementDate := Some (ymd 2024 1 17)\<rparr>)
       = Some (ymd 2025 1 10)" by (simp add: exLoanCreated_def)
  have 4: "setMonth (ymd 2024 1 17) (getMonth (ymd 2024 1 17) + 12) = ymd 2025 1 17" by code_simp
  have 5: "ymd 2025 1 10 \<noteq> ymd 2025 1 17" by code_simp
  from 1 2 3 4 5 show ?thesis by blast
qed

section \<open>Penalty\<close>

text \<open>
  C3. For a positive number of overdue days the penalty is
  \<open>overdueAmount * (penaltyRate / 100 / 365) * daysOverdue\<close> for the PERCENTAGE type and
  \<open>penaltyRate * daysOverdue\<close>, whatever the overdue amount, for the FIXED type; for no
  overdue day it is 0; 10000 overdue at 24 percent for 30 days gives 197.26 to the
  hundredth.
\<close>

theorem calculatePenalty_formula:
  "(0 < days \<longrightarrow> penaltyType loan = PERCENTAGE \<longrightarrow>
      calculatePenalty loan days amount = amount * (penaltyRate loan / 100 / 365) * of_int days)
   \<and> (0 < days \<longrightarrow> penaltyType loan = FIXED \<longrightarrow>
      calculatePenalty loan days amount = penaltyRate loan * of_int days
      \<and> calculatePenalty loan days amount = calculatePenalty loan days amount')
   \<and> (days \<le> 0 \<longrightarrow> calculatePenalty loan days amount = 0)
   \<and> (penaltyType loan = PERCENTAGE \<longrightarrow> penaltyRate loan = 24 \<longrightarrow>
      \<bar>calculatePenalty loan 30 10000 - 19726 / 100\<bar> < 1 / 200)"
  by (simp add: calculatePenalty_def)

theorem calculatePenalty_formula_witness:
  "(0::int) < 30 \<and> penaltyType exLoan = PERCENTAGE \<and> penaltyRate exLoan = 24
   \<and> calculatePenalty exLoan 30 10000 = 10000 * (24 / 100 / 365) * 30
   \<and> \<bar>calculatePenalty exLoan 30 10000 - 19726 / 100\<bar> < 1 / 200
   \<and> penaltyType (exLoan\<lparr>penaltyType := FIXED, penaltyRate := 50\<rparr>) = FIXED
   \<and> calculatePenalty (exLoan\<lparr>penaltyType := FIXED, penaltyRate := 50\<rparr>) 30 10000 = 1500
   \<and> calculatePenalty exLoan 0 10000 = 0"
  using calculatePenalty_formula[of 30 exLoan 10000 0]
    calculatePenalty_formula[of 30 "exLoan\<lparr>penaltyType := FIXED, penaltyRate := 50\<rparr>" 10000 0]
    calculatePenalty_formula[of 0 exLoan 10000 0]
  by (simp add: exLoan_def)

section \<open>Overdue status\<close>

text \<open>
  C2. For an ACTIVE loan, \<open>calculateOverdueStatus\<close> reports not overdue, with all amounts
  0, when there is no next due date or \<open>now\<close> is not after it; otherwise it reports overdue,
  with \<open>daysOverdue\<close> the whole days elapsed since the due date and \<open>overdueAmount\<close> the
  smaller of the EMI amount (0 when the column is null) and the outstanding balance, so
  at most one EMI and at most the balance; the penalty is \<open>calculatePenalty\<close> of these.
\<close>

theorem calculateOverdueStatus_active:
  assumes "status loan = ACTIVE"
  shows "(calculateNextDueDate now loan = None \<or>
            (\<exists>due. calculateNextDueDate now loan = Some due \<and> now \<le> due) \<longrightarrow>
          \<not> res_isOverdue (calculateOverdueStatus now loan)
          \<and> res_daysOverdue (calculateOverdueStatus now loan) = 0
          \<and> res_overdueAmount (calculateOverdueStatus now loan) = 0
          \<and> res_penaltyAmount (calculateOverdueStatus now loan) = 0
          \<and> res_nextDueDate (calculateOverdueStatus now loan) = calculateNextDueDate now loan)
       \<and> (\<forall>due. calculateNextDueDate now loan = Some due \<longrightarrow> due < now \<longrightarrow>
          res_isOverdue (calculateOverdueStatus now loan)
          \<and> res_daysOverdue (calculateOverdueStatus now loan) = (now - due) div 86400000
          \<and> res_overdueAmount (calculateOverdueStatus now loan) =
              min (case emiAmount loan of None \<Rightarrow> 0 | Some e \<Rightarrow> e) (outstandingBalance loan)
          \<and> (\<forall>e. emiAmount loan = Some e \<longrightarrow>
                res_overdueAmount (calculateOverdueStatus now loan) \<le> e)
          \<and> res_overdueAmount (calculateOverdueStatus now loan) \<le> outstandingBalance loan
          \<and> res_penaltyAmount (calculateOverdueStatus now loan) =
              calculatePenalty loan ((now - due) div 86400000)
                (res_overdueAmount (calculateOverdueStatus now loan))
          \<and> res_nextDueDate (calculateOverdueStatus now loan) = Some due)"
  using assms
  by (auto simp add: calculateOverdueStatus_def notOverdue_def Let_def days_floor
           split: option.splits)

theorem calculateOverdueStatus_active_witness:
  "status exLoanPaid = ACTIVE
   \<and> calculateNextDueDate (ymd 2024 4 1) exLoanPaid = Some (ymd 2024 3 17)
   \<and> ymd 2024 3 17 < ymd 2024 4 1
   \<and> res_isOverdue (calculateOverdueStatus (ymd 2024 4 1) exLoanPaid)
   \<and> res_daysOverdue (calculateOverdueStatus (ymd 2024 4 1) exLoanPaid) = 15
   \<and> res_overdueAmount (calculateOverdueStatus (ymd 2024 4 1) exLoanPaid) = 888488 / 100
   \<and> calculateNextDueDate (ymd 2024 3 10) exLoanPaid = Some (ymd 2024 3 17)
   \<and> ymd 2024 3 10 \<le> ymd 2024 3 17
   \<and> \<not> res_isOverdue (calculateOverdueStatus (ymd 2024 3 10) exLoanPaid)
   \<and> res_overdueAmount (calculateOverdueStatus (ymd 2024 3 10) exLoanPaid) = 0"
proof -
  have s: "status exLoanPaid = ACTIVE" by code_simp
  have d: "calculateNextDueDate (ymd 2024 4 1) exLoanPaid = Some (ymd 2024 3 17)" by code_simp
  have lt: "ymd 2024 3 17 < ymd 2024 4 1" by code_simp
  have n: "(ymd 2024 4 1 - ymd 2024 3 17) div 86400000 = 15" by code_simp
  have e: "emiAmount exLoanPaid = Some (888488 / 100)"
    "outstandingBalance exLoanPaid = 9111512 / 100" by (simp_all add: exLoanPaid_def exLoan_def)
  have d2: "calculateNextDueDate (ymd 2024 3 10) exLoanPaid = Some (ymd 2024 3 17)" by code_simp
  have le: "ymd 2024 3 10 \<le> ymd 2024 3 17" by code_simp
  note A = calculateOverdueStatus_active[OF s, of "ymd 2024 4 1", THEN conjunct2, THEN spec,
      THEN mp, THEN mp, OF d lt]
  note B = calculateOverdueStatus_active[OF s, of "ymd 2024 3 10", THEN conjunct1]
  from B d2 le have b: "\<not> res_isOverdue (calculateOverdueStatus (ymd 2024 3 10) exLoanPaid)
     \<and> res_overdueAmount (calculateOverdueStatus (ymd 2024 3 10) exLoanPaid) = 0" by blast
  from A n e have a: "res_isOverdue (calculateOverdueStatus (ymd 2024 4 1) exLoanPaid)
   \<and> res_daysOverdue (calculateOverdueStatus (ymd 2024 4 1) exLoanPaid) = 15
   \<and> res_overdueAmount (calculateOverdueStatus (ymd 2024 4 1) exLoanPaid) = 888488 / 100"
    by simp
  from s d lt a d2 le b show ?thesis by blast
qed

text \<open>
  C4. In the branch without a payment, \<open>calculateNextDueDate\<close> adds the elapsed months to
  the month of the disbursement date but applies \<^verbatim>\<open>setMonth\<close> to \<open>nextDue\<close>, whose year is
  already that of the disbursement date plus one month. For a loan disbursed on 2023-12-15
  and never paid, on 2024-03-01: two whole months of 30.44 days have elapsed, three months
  from the disbursement date is 2024-03-15, and the function returns 2025-03-15; a year
  later the loan is still reported not overdue.
\<close>

theorem calculateNextDueDate_december_year_slip:
  "disbursementDate exLoanDec = Some (ymd 2023 12 15)
   \<and> lastPaymentDate exLoanDec = None
   \<and> setMonth (ymd 2023 12 15) (getMonth (ymd 2023 12 15) + 1) = ymd 2024 1 15
   \<and> ymd 2024 1 15 < ymd 2024 3 1
   \<and> \<lfloor>(of_int (ymd 2024 3 1 - ymd 2023 12 15) :: rat) / (1000 * 60 * 60 * 24 * (3044 / 100))\<rfloor> = 2
   \<and> setDate (setMonth (ymd 2023 12 15) (getMonth (ymd 2023 12 15) + (2 + 1)))
        (getDate (ymd 2023 12 15)) = ymd 2024 3 15
   \<and> calculateNextDueDate (ymd 2024 3 1) exLoanDec = Some (ymd 2025 3 15)
   \<and> res_nextDueDate (calculateOverdueStatus (ymd 2024 3 1) exLoanDec) = Some (ymd 2025 3 15)
   \<and> \<not> res_isOverdue (calculateOverdueStatus (ymd 2025 3 1) exLoanDec)"
proof -
  have 1: "disbursementDate exLoanDec = Some (ymd 2023 12 15)" by (simp add: exLoanDec_def)
  have 2: "lastPaymentDate exLoanDec = None" by (simp add: exLoanDec_def exLoan_def)
  have 3: "setMonth (ymd 2023 12 15) (getMonth (ymd 2023 12 15) + 1) = ymd 2024 1 15" by code_simp
  have 4: "ymd 2024 1 15 < ymd 2024 3 1" by code_simp
  have 5: "\<lfloor>(of_int (ymd 2024 3 1 - ymd 2023 12 15) :: rat) / (1000 * 60 * 60 * 24 * (3044 / 100))\<rfloor> = 2"
    by code_simp
  have 6: "setDate (setMonth (ymd 2023 12 15) (getMonth (ymd 2023 12 15) + (2 + 1)))
        (getDate (ymd 2023 12 15)) = ymd 2024 3 15" by code_simp
  have 7: "calculateNextDueDate (ymd 2024 3 1) exLoanDec = Some (ymd 2025 3 15)" by code_simp
  have 8: "res_nextDueDate (calculateOverdueStatus (ymd 2024 3 1) exLoanDec) = Some (ymd 2025 3 15)"
    by code_simp
  have 9: "\<not> res_isOverdue (calculateOverdueStatus (ymd 2025 3 1) exLoanDec)" by code_simp
  from 1 2 3 4 5 6 7 8 9 show ?thesis by blast
qed

text \<open>
  C5. The first half of the claim is what the code does: \<open>calculateOverdueStatus\<close> reports
  not overdue with zero amounts for every loan that is not ACTIVE (lemma
  \<open>calculateOverdueStatus_nonActive\<close>), and the refresh that ends the payment handler
  persists that for a loan whose closing payment makes it COMPLETED. The second half fails
  for the operation that marks a loan DEFAULTED: \<open>checkAndMarkDefaulted\<close> requires
  \<open>isOverdue\<close> and writes the status only (lemma \<open>checkAndMarkDefaulted_status_only\<close>). The
  scheduled job, run on 2024-06-25 over the loan last paid on 2024-02-17, marks it overdue by
  100 days and then DEFAULTED; the persisted row has the status DEFAULTED with
  \<open>isOverdue = True\<close>, 100 days and a positive overdue amount, while
  \<open>calculateOverdueStatus\<close> on that very row reports not overdue. The same loan closed by a
  payment on that day is persisted COMPLETED and not overdue.
\<close>

theorem checkAndMarkDefaulted_leaves_overdue_snapshot:
  "snd (overdueCheckJob neverFails (ymd 2024 6 25) exDbPaid)
     = Completed \<lparr>totalProcessed = 1, newOverdueCount = 1, clearedOverdueCount = 0\<rparr> 1
   \<and> map_option (\<lambda>l. (status l, isOverdue l, daysOverdue l, overdueAmount l))
         (findLoan ''L1'' (fst (overdueCheckJob neverFails (ymd 2024 6 25) exDbPaid)))
       = Some (DEFAULTED, True, 100, 888488 / 100)
   \<and> map_option (\<lambda>l. res_isOverdue (calculateOverdueStatus (ymd 2024 6 25) l))
         (findLoan ''L1'' (fst (overdueCheckJob neverFails (ymd 2024 6 25) exDbPaid)))
       = Some False
   \<and> checkAndMarkDefaulted ''L1'' 90 exDbLate
       = Inr (True, exDbLate\<lparr>loans := [exLoanLate\<lparr>status := DEFAULTED\<rparr>]\<rparr>)
   \<and> isOverdue (exLoanLate\<lparr>status := DEFAULTED\<rparr>)
   \<and> (case recordPayment (ymd 2024 6 25) exClosure exDbLate of
         Inl e \<Rightarrow> None
       | Inr (payment, db') \<Rightarrow>
           map_option (\<lambda>l. (status l, isOverdue l, daysOverdue l, overdueAmount l))
             (findLoan ''L1'' db'))
       = Some (COMPLETED, False, 0, 0)"
proof -
  have 1: "snd (overdueCheckJob neverFails (ymd 2024 6 25) exDbPaid)
     = Completed \<lparr>totalProcessed = 1, newOverdueCount = 1, clearedOverdueCount = 0\<rparr> 1"
    by code_simp
  have 2: "map_option (\<lambda>l. (status l, isOverdue l, daysOverdue l, overdueAmount l))
         (findLoan ''L1'' (fst (overdueCheckJob neverFails (ymd 2024 6 25) exDbPaid)))
       = Some (DEFAULTED, True, 100, 888488 / 100)" by code_simp
  have 3: "map_option (\<lambda>l. res_isOverdue (calculateOverdueStatus (ymd 2024 6 25) l))
         (findLoan ''L1'' (fst (overdueCheckJob neverFails (ymd 2024 6 25) exDbPaid)))
       = Some False" by code_simp
  have 4: "checkAndMarkDefaulted ''L1'' 90 exDbLate
       = Inr (True, exDbLate\<lparr>loans := [exLoanLate\<lparr>status := DEFAULTED\<rparr>]\<rparr>)" by code_simp
  have 5: "isOverdue (exLoanLate\<lparr>status := DEFAULTED\<rparr>)" by code_simp
  have 6: "(case recordPayment (ymd 2024 6 25) exClosure exDbLate of
         Inl e \<Rightarrow> None
       | Inr (payment, db') \<Rightarrow>
           map_option (\<lambda>l. (status l, isOverdue l, daysOverdue l, overdueAmount l))
             (findLoan ''L1'' db'))
       = Some (COMPLETED, False, 0, 0)" by code_simp
  from 1 2 3 4 5 6 show ?thesis by blast
qed

section \<open>Persisted overdue snapshot\<close>

text \<open>
  C6, as amended. \<open>updateLoanOverdueStatus\<close>, and the sweep for each ACTIVE loan when no
  write fails, set \<open>overdueSince\<close> to \<open>now\<close> exactly when the loan was not overdue and
  now is, and leave it as it was in every other case, also when the loan stops being
  overdue; the columns outside the overdue snapshot, the other loans, the payments and the
  customers are unchanged.
\<close>

theorem overdueSince_stamp_and_frame:
  "(\<forall>loan. findLoan i db = Some loan \<longrightarrow>
      (\<exists>loan' db'. updateLoanOverdueStatus now i db = Inr (loan', db')
         \<and> findLoan i db' = Some loan'
         \<and> isOverdue loan' = res_isOverdue (calculateOverdueStatus now loan)
         \<and> overdueSince loan' =
             (if isOverdue loan' \<and> \<not> isOverdue loan then Some now else overdueSince loan)
         \<and> loan'\<lparr>isOverdue := isOverdue loan, daysOverdue := daysOverdue loan,
                  overdueAmount := overdueAmount loan, penaltyAmount := penaltyAmount loan,
                  nextDueDate := nextDueDate loan, overdueSince := overdueSince loan\<rparr> = loan
         \<and> (\<forall>j. j \<noteq> i \<longrightarrow> findLoan j db' = findLoan j db)
         \<and> payments db' = payments db \<and> customers db' = customers db))
   \<and> (distinct (map loan_id (loans db)) \<longrightarrow>
        (\<forall>l\<in>set (findActiveLoans db). \<not> fails (loan_id l)) \<longrightarrow>
      (\<exists>db' r. updateAllOverdueLoans fails now db = (db', Inr r)
         \<and> list_all2
              (\<lambda>l l'. (status l \<noteq> ACTIVE \<longrightarrow> l' = l)
                 \<and> (status l = ACTIVE \<longrightarrow>
                      isOverdue l' = res_isOverdue (calculateOverdueStatus now l)
                      \<and> overdueSince l' =
                          (if isOverdue l' \<and> \<not> isOverdue l then Some now else overdueSince l)
                      \<and> l'\<lparr>isOverdue := isOverdue l, daysOverdue := daysOverdue l,
                            overdueAmount := overdueAmount l, penaltyAmount := penaltyAmount l,
                            nextDueDate := nextDueDate l, overdueSince := overdueSince l\<rparr> = l))
              (loans db) (loans db')
         \<and> payments db' = payments db \<and> customers db' = customers db))"
proof (intro conjI allI impI)
  fix loan assume f: "findLoan i db = Some loan"
  let ?l = "overdueData now loan loan" and ?db = "writeLoan i (overdueData now loan) db"
  have "updateLoanOverdueStatus now i db = Inr (?l, ?db)"
    using updateLoanOverdueStatus_found[OF f] .
  moreover have "findLoan i ?db = Some ?l" using f by (simp add: findLoan_writeLoan)
  moreover have "\<forall>j. j \<noteq> i \<longrightarrow> findLoan j ?db = findLoan j db"
    by (simp add: findLoan_writeLoan)
  ultimately show "\<exists>loan' db'. updateLoanOverdueStatus now i db = Inr (loan', db')
         \<and> findLoan i db' = Some loan'
         \<and> isOverdue loan' = res_isOverdue (calculateOverdueStatus now loan)
         \<and> overdueSince loan' =
             (if isOverdue loan' \<and> \<not> isOverdue loan then Some now else overdueSince loan)
         \<and> loan'\<lparr>isOverdue := isOverdue loan, daysOverdue := daysOverdue loan,
                  overdueAmount := overdueAmount loan, penaltyAmount := penaltyAmount loan,
                  nextDueDate := nextDueDate loan, overdueSince := overdueSince loan\<rparr> = loan
         \<and> (\<forall>j. j \<noteq> i \<longrightarrow> findLoan j db' = findLoan j db)
         \<and> payments db' = payments db \<and> customers db' = customers db"
    by (intro exI[of _ ?l] exI[of _ ?db]) (simp add: overdueData_fields overdueData_frame)
next
  assume d: "distinct (map loan_id (loans db))"
    and nf: "\<forall>l\<in>set (findActiveLoans db). \<not> fails (loan_id l)"
  let ?db = "refreshed now (findActiveLoans db) db"
  let ?P = "\<lambda>l l'. (status l \<noteq> ACTIVE \<longrightarrow> l' = l)
                 \<and> (status l = ACTIVE \<longrightarrow>
                      isOverdue l' = res_isOverdue (calculateOverdueStatus now l)
                      \<and> overdueSince l' =
                          (if isOverdue l' \<and> \<not> isOverdue l then Some now else overdueSince l)
                      \<and> l'\<lparr>isOverdue := isOverdue l, daysOverdue := daysOverdue l,
                            overdueAmount := overdueAmount l, penaltyAmount := penaltyAmount l,
                            nextDueDate := nextDueDate l, overdueSince := overdueSince l\<rparr> = l)"
  have run: "\<exists>r. updateAllOverdueLoans fails now db = (?db, Inr r)"
    using sweep_all_ok[OF d nf, of now] by blast
  have "list_all2 ?P (loans db)
          (map (\<lambda>l. if l \<in> set (findActiveLoans db) then overdueData now l l else l) (loans db))"
    by (rule list_all2_map_self)
       (simp add: findActiveLoans_def overdueData_fields overdueData_frame)
  then have rel: "list_all2 ?P (loans db) (loans ?db)" by (simp add: refreshed_def)
  have "payments ?db = payments db" "customers ?db = customers db"
    by (simp_all add: refreshed_def)
  with run rel show "\<exists>db' r. updateAllOverdueLoans fails now db = (db', Inr r)
         \<and> list_all2 ?P (loans db) (loans db')
         \<and> payments db' = payments db \<and> customers db' = customers db" by blast
qed

theorem overdueSince_stamp_and_frame_witness:
  "findLoan ''L1'' exDbRecovered = Some exLoanRecovered
   \<and> (\<exists>loan' db'. updateLoanOverdueStatus (ymd 2024 4 1) ''L1'' exDbRecovered = Inr (loan', db')
         \<and> findLoan ''L1'' db' = Some loan'
         \<and> \<not> isOverdue loan' \<and> overdueSince loan' = Some (ymd 2024 3 18)
         \<and> outstandingBalance loan' = outstandingBalance exLoanRecovered)
   \<and> distinct (map loan_id (loans exDb3))
   \<and> list_all (\<lambda>l. \<not> neverFails (loan_id l)) (findActiveLoans exDb3)
   \<and> (\<exists>db' r. updateAllOverdueLoans neverFails (ymd 2024 4 1) exDb3 = (db', Inr r)
         \<and> length (loans db') = 3 \<and> payments db' = payments exDb3)"
proof -
  have f: "findLoan ''L1'' exDbRecovered = Some exLoanRecovered" by code_simp
  have c: "res_isOverdue (calculateOverdueStatus (ymd 2024 4 1) exLoanRecovered) = False"
    by code_simp
  have os: "overdueSince exLoanRecovered = Some (ymd 2024 3 18)"
    by (simp add: exLoanRecovered_def)
  have d: "distinct (map loan_id (loans exDb3))" by code_simp
  have nv: "\<forall>l\<in>set (findActiveLoans exDb3). \<not> neverFails (loan_id l)"
    by (simp add: neverFails_def)
  have len: "length (loans exDb3) = 3" by (simp add: exDb3_def)
  note T = overdueSince_stamp_and_frame[of "''L1''" exDbRecovered "ymd 2024 4 1"]
  from T[THEN conjunct1, THEN spec, THEN mp, OF f]
  obtain loan' :: Loan and db' where u:
    "updateLoanOverdueStatus (ymd 2024 4 1) ''L1'' exDbRecovered = Inr (loan', db')"
    "findLoan ''L1'' db' = Some loan'"
    "isOverdue loan' = res_isOverdue (calculateOverdueStatus (ymd 2024 4 1) exLoanRecovered)"
    "overdueSince loan' =
       (if isOverdue loan' \<and> \<not> isOverdue exLoanRecovered then Some (ymd 2024 4 1)
        else overdueSince exLoanRecovered)"
    "loan'\<lparr>isOverdue := isOverdue exLoanRecovered, daysOverdue := daysOverdue exLoanRecovered,
           overdueAmount := overdueAmount exLoanRecovered,
           penaltyAmount := penaltyAmount exLoanRecovered,
           nextDueDate := nextDueDate exLoanRecovered,
           overdueSince := overdueSince exLoanRecovered\<rparr> = exLoanRecovered"
    by blast
  have ob: "outstandingBalance loan' = outstandingBalance exLoanRecovered"
    using arg_cong[OF u(5), of outstandingBalance] by simp
  have 1: "\<exists>loan' db'. updateLoanOverdueStatus (ymd 2024 4 1) ''L1'' exDbRecovered = Inr (loan', db')
         \<and> findLoan ''L1'' db' = Some loan'
         \<and> \<not> isOverdue loan' \<and> overdueSince loan' = Some (ymd 2024 3 18)
         \<and> outstandingBalance loan' = outstandingBalance exLoanRecovered"
    using u(1,2,3,4) c os ob by auto
  from overdueSince_stamp_and_frame[of _ exDb3 "ymd 2024 4 1" neverFails,
      THEN conjunct2, THEN mp, THEN mp, OF d nv]
  obtain db2 r where s: "updateAllOverdueLoans neverFails (ymd 2024 4 1) exDb3 = (db2, Inr r)"
    and la: "list_all2
              (\<lambda>l l'. (status l \<noteq> ACTIVE \<longrightarrow> l' = l)
                 \<and> (status l = ACTIVE \<longrightarrow>
                      isOverdue l' = res_isOverdue (calculateOverdueStatus (ymd 2024 4 1) l)
                      \<and> overdueSince l' =
                          (if isOverdue l' \<and> \<not> isOverdue l then Some (ymd 2024 4 1) else overdueSince l)
                      \<and> l'\<lparr>isOverdue := isOverdue l, daysOverdue := daysOverdue l,
                            overdueAmount := overdueAmount l, penaltyAmount := penaltyAmount l,
                            nextDueDate := nextDueDate l, overdueSince := overdueSince l\<rparr> = l))
              (loans exDb3) (loans db2)"
    and pp: "payments db2 = payments exDb3"
    by blast
  have "length (loans db2) = 3" using list_all2_lengthD[OF la] len by simp
  with s pp have 2: "\<exists>db' r. updateAllOverdueLoans neverFails (ymd 2024 4 1) exDb3 = (db', Inr r)
         \<and> length (loans db') = 3 \<and> payments db' = payments exDb3" by blast
  have nv': "list_all (\<lambda>l. \<not> neverFails (loan_id l)) (findActiveLoans exDb3)"
    using nv by (simp add: list_all_iff)
  from f 1 d nv' 2 show ?thesis by blast
qed

text \<open>
  C6 as stated fails: a loan flagged overdue since 2024-03-18 and paid on 2024-03-25 is
  recomputed on 2024-04-01 as not overdue, and its \<open>overdueSince\<close> is still 2024-03-18.
\<close>

theorem overdueSince_not_cleared_counterexample:
  "findLoan ''L1'' exDbRecovered = Some exLoanRecovered
   \<and> isOverdue exLoanRecovered
   \<and> updateLoanOverdueStatus (ymd 2024 4 1) ''L1'' exDbRecovered
       = Inr (exLoanCleared, exDbRecovered\<lparr>loans := [exLoanCleared]\<rparr>)
   \<and> isOverdue exLoanCleared = False
   \<and> overdueSince exLoanCleared = Some (ymd 2024 3 18)"
proof -
  have 1: "findLoan ''L1'' exDbRecovered = Some exLoanRecovered" by code_simp
  have 2: "isOverdue exLoanRecovered" by code_simp
  have 3: "updateLoanOverdueStatus (ymd 2024 4 1) ''L1'' exDbRecovered
       = Inr (exLoanCleared, exDbRecovered\<lparr>loans := [exLoanCleared]\<rparr>)" by code_simp
  have 4: "isOverdue exLoanCleared = False" by code_simp
  have 5: "overdueSince exLoanCleared = Some (ymd 2024 3 18)"
    by (simp add: exLoanCleared_def exLoanRecovered_def)
  from 1 2 3 4 5 show ?thesis by blast
qed

section \<open>Batch sweep\<close>

text \<open>
  C7, as amended. With unique loan ids: when no write to an ACTIVE loan fails, the sweep
  recomputes every ACTIVE loan and returns its counts; when the write to some ACTIVE loan
  fails and none before it does, the sweep stops there and returns the error in place of
  the counts, the loans before it are recomputed, that loan and all later ones are as
  they were, and the scheduled job logs the error and skips the default checks.
\<close>

theorem updateAllOverdueLoans_aborts_on_failure:
  assumes "distinct (map loan_id (loans db))"
  shows "((\<forall>l\<in>set (findActiveLoans db). \<not> fails (loan_id l)) \<longrightarrow>
            updateAllOverdueLoans fails now db =
              (refreshed now (findActiveLoans db) db,
               Inr \<lparr>totalProcessed = length (findActiveLoans db),
                    newOverdueCount = length (filter (\<lambda>l. \<not> isOverdue l \<and>
                        res_isOverdue (calculateOverdueStatus now l)) (findActiveLoans db)),
                    clearedOverdueCount = length (filter (\<lambda>l. isOverdue l \<and>
                        \<not> res_isOverdue (calculateOverdueStatus now l)) (findActiveLoans db))\<rparr>))
       \<and> (\<forall>pre lf post.
            findActiveLoans db = pre @ lf # post \<longrightarrow>
            (\<forall>l\<in>set pre. \<not> fails (loan_id l)) \<longrightarrow> fails (loan_id lf) \<longrightarrow>
              updateAllOverdueLoans fails now db = (refreshed now pre db, Inl WriteFailed)
              \<and> overdueCheckJob fails now db = (refreshed now pre db, ErrorLogged WriteFailed)
              \<and> (\<forall>l\<in>set pre. findLoan (loan_id l) (refreshed now pre db)
                                  = Some (overdueData now l l))
              \<and> (\<forall>l\<in>set (lf # post). findLoan (loan_id l) (refreshed now pre db) = Some l))"
proof (intro conjI allI impI)
  assume "\<forall>l\<in>set (findActiveLoans db). \<not> fails (loan_id l)"
  then show "updateAllOverdueLoans fails now db =
              (refreshed now (findActiveLoans db) db,
               Inr \<lparr>totalProcessed = length (findActiveLoans db),
                    newOverdueCount = length (filter (\<lambda>l. \<not> isOverdue l \<and>
                        res_isOverdue (calculateOverdueStatus now l)) (findActiveLoans db)),
                    clearedOverdueCount = length (filter (\<lambda>l. isOverdue l \<and>
                        \<not> res_isOverdue (calculateOverdueStatus now l)) (findActiveLoans db))\<rparr>)"
    using sweep_all_ok[OF assms] by blast
next
  fix pre lf post
  assume split: "findActiveLoans db = pre @ lf # post"
    and nf: "\<forall>l\<in>set pre. \<not> fails (loan_id l)"
    and f: "fails (loan_id lf)"
  have ab: "updateAllOverdueLoans fails now db = (refreshed now pre db, Inl WriteFailed)"
    using sweep_abort[OF assms split nf f] .
  show "updateAllOverdueLoans fails now db = (refreshed now pre db, Inl WriteFailed)" by (rule ab)
  show "overdueCheckJob fails now db = (refreshed now pre db, ErrorLogged WriteFailed)"
    by (simp add: overdueCheckJob_def ab)
  have act: "set (findActiveLoans db) \<subseteq> set (loans db)" by (auto simp: findActiveLoans_def)
  have dl: "distinct (map loan_id (pre @ lf # post))"
    using assms split distinct_map_filter[of loan_id "loans db" "\<lambda>l. status l = ACTIVE"]
    by (simp add: findActiveLoans_def)
  show "\<forall>l\<in>set pre. findLoan (loan_id l) (refreshed now pre db) = Some (overdueData now l l)"
  proof
    fix l assume l: "l \<in> set pre"
    then have "l \<in> set (loans db)" using act split by auto
    then have "findLoan (loan_id l) db = Some l" using findLoan_member[OF assms] by blast
    then show "findLoan (loan_id l) (refreshed now pre db) = Some (overdueData now l l)"
      using l by (simp add: findLoan_refreshed)
  qed
  show "\<forall>l\<in>set (lf # post). findLoan (loan_id l) (refreshed now pre db) = Some l"
  proof
    fix l assume l: "l \<in> set (lf # post)"
    then have "l \<in> set (loans db)" using act split by auto
    then have fl: "findLoan (loan_id l) db = Some l" using findLoan_member[OF assms] by blast
    have "l \<notin> set pre" using dl l by (auto simp: image_iff)
    then show "findLoan (loan_id l) (refreshed now pre db) = Some l"
      using fl by (simp add: findLoan_refreshed)
  qed
qed

theorem updateAllOverdueLoans_aborts_on_failure_witness:
  "distinct (map loan_id (loans exDb3))
   \<and> findActiveLoans exDb3 =
        [exLoanPaid] @ exLoanPaid\<lparr>loan_id := ''L2''\<rparr> # [exLoanPaid\<lparr>loan_id := ''L3''\<rparr>]
   \<and> \<not> failsL2 (loan_id exLoanPaid)
   \<and> failsL2 (loan_id (exLoanPaid\<lparr>loan_id := ''L2''\<rparr>))
   \<and> updateAllOverdueLoans failsL2 (ymd 2024 4 1) exDb3
        = (refreshed (ymd 2024 4 1) [exLoanPaid] exDb3, Inl WriteFailed)
   \<and> overdueCheckJob failsL2 (ymd 2024 4 1) exDb3
        = (refreshed (ymd 2024 4 1) [exLoanPaid] exDb3, ErrorLogged WriteFailed)
   \<and> list_all (\<lambda>l. \<not> neverFails (loan_id l)) (findActiveLoans exDb3)
   \<and> snd (updateAllOverdueLoans neverFails (ymd 2024 4 1) exDb3)
        = Inr \<lparr>totalProcessed = 3, newOverdueCount = 3, clearedOverdueCount = 0\<rparr>"
proof -
  have d: "distinct (map loan_id (loans exDb3))" by code_simp
  have sp: "findActiveLoans exDb3 =
        [exLoanPaid] @ exLoanPaid\<lparr>loan_id := ''L2''\<rparr> # [exLoanPaid\<lparr>loan_id := ''L3''\<rparr>]"
    by code_simp
  have nf: "\<forall>l\<in>set [exLoanPaid]. \<not> failsL2 (loan_id l)" by code_simp
  have f: "failsL2 (loan_id (exLoanPaid\<lparr>loan_id := ''L2''\<rparr>))" by code_simp
  have nv: "\<forall>l\<in>set (findActiveLoans exDb3). \<not> neverFails (loan_id l)"
    by (simp add: neverFails_def)
  have c1: "length (findActiveLoans exDb3) = 3" by code_simp
  have c2: "length (filter (\<lambda>l. \<not> isOverdue l \<and>
      res_isOverdue (calculateOverdueStatus (ymd 2024 4 1) l)) (findActiveLoans exDb3)) = 3"
    by code_simp
  have c3: "length (filter (\<lambda>l. isOverdue l \<and>
      \<not> res_isOverdue (calculateOverdueStatus (ymd 2024 4 1) l)) (findActiveLoans exDb3)) = 0"
    by code_simp
  note a = updateAllOverdueLoans_aborts_on_failure[OF d, of failsL2 "ymd 2024 4 1",
      THEN conjunct2, THEN spec, THEN spec, THEN spec, THEN mp, THEN mp, THEN mp, OF sp nf f]
  note b = updateAllOverdueLoans_aborts_on_failure[OF d, of neverFails "ymd 2024 4 1",
      THEN conjunct1, THEN mp, OF nv]
  have s: "snd (updateAllOverdueLoans neverFails (ymd 2024 4 1) exDb3)
        = Inr \<lparr>totalProcessed = 3, newOverdueCount = 3, clearedOverdueCount = 0\<rparr>"
    unfolding b using c1 c2 c3 by simp
  have nf': "\<not> failsL2 (loan_id exLoanPaid)" using nf by simp
  have nv': "list_all (\<lambda>l. \<not> neverFails (loan_id l)) (findActiveLoans exDb3)"
    using nv by (simp add: list_all_iff)
  from d sp nf' f a nv' s show ?thesis by blast
qed

text \<open>
  C7 as stated fails: of three ACTIVE loans, all due for recomputation on 2024-04-01, the
  write to the second fails; the sweep returns the error and no counts, and the third loan,
  whose own write would succeed and which is overdue, is left as persisted, not overdue.
\<close>

theorem sweep_failure_counterexample:
  "snd (updateAllOverdueLoans failsL2 (ymd 2024 4 1) exDb3) = Inl WriteFailed
   \<and> findLoan ''L3'' exDb3 = Some (exLoanPaid\<lparr>loan_id := ''L3''\<rparr>)
   \<and> status (exLoanPaid\<lparr>loan_id := ''L3''\<rparr>) = ACTIVE
   \<and> \<not> failsL2 ''L3''
   \<and> res_isOverdue (calculateOverdueStatus (ymd 2024 4 1) (exLoanPaid\<lparr>loan_id := ''L3''\<rparr>))
   \<and> findLoan ''L3'' (fst (updateAllOverdueLoans failsL2 (ymd 2024 4 1) exDb3))
       = Some (exLoanPaid\<lparr>loan_id := ''L3''\<rparr>)
   \<and> \<not> isOverdue (exLoanPaid\<lparr>loan_id := ''L3''\<rparr>)"
proof -
  have 1: "snd (updateAllOverdueLoans failsL2 (ymd 2024 4 1) exDb3) = Inl WriteFailed"
    by code_simp
  have 2: "findLoan ''L3'' exDb3 = Some (exLoanPaid\<lparr>loan_id := ''L3''\<rparr>)" by code_simp
  have 3: "status (exLoanPaid\<lparr>loan_id := ''L3''\<rparr>) = ACTIVE" by code_simp
  have 4: "\<not> failsL2 ''L3''" by code_simp
  have 5: "res_isOverdue (calculateOverdueStatus (ymd 2024 4 1) (exLoanPaid\<lparr>loan_id := ''L3''\<rparr>))"
    by code_simp
  have 6: "findLoan ''L3'' (fst (updateAllOverdueLoans failsL2 (ymd 2024 4 1) exDb3))
       = Some (exLoanPaid\<lparr>loan_id := ''L3''\<rparr>)" by code_simp
  have 7: "\<not> isOverdue (exLoanPaid\<lparr>loan_id := ''L3''\<rparr>)" by code_simp
  from 1 2 3 4 5 6 7 show ?thesis by blast
qed

section \<open>Payment ledger\<close>





end
